theory Spec2Isabelle
  imports
    Complex_Main
    "HOL-Library.AList"
    "HOL-Library.Sublist"
    "HOL-Library.Char_ord"
    "HOL-Library.List_Lexorder"
    "HOL-Library.Log_Nat"
begin

section \<open>The price scraper of \<^verbatim>\<open>scraper.py\<close>\<close>

text \<open>
  The theory embeds the scrape, filter, aggregate and tabulate pipeline of
  \<^verbatim>\<open>scraper.py\<close>. The conventions of the embedding:

  \<^item> A Python \<^verbatim>\<open>str\<close> is a \<^typ>\<open>string\<close>; a character is a code point below 256.
  \<^item> A Python \<^verbatim>\<open>float\<close> is an IEEE 754 double, given by its exact rational value
    or as an infinity or not-a-number. \<^verbatim>\<open>float(s)\<close>, the sum, the quotient and
    \<^verbatim>\<open>round(x, 2)\<close> round to the nearest double as the interpreter does.
  \<^item> A Python \<^verbatim>\<open>dict\<close> is an association list with distinct keys in insertion
    order; \<^const>\<open>AList.update\<close> is the assignment \<^verbatim>\<open>d[k] = v\<close>.
  \<^item> An exception is a value of type \<open>error\<close>; a function that can raise returns
    \<open>error + 'a\<close>, with \<open>Inl\<close> for the exception.
  \<^item> The remote service and the HTML library are outside the program: a response is
    either an exception of the transport or the parsed document, given by what
    \<^verbatim>\<open>find\<close> and \<^verbatim>\<open>find_all\<close> return on it.
\<close>

subsection \<open>Exceptions\<close>

datatype error =
    ValueError
  | AttributeError
  | TypeError
  | KeyError
  | ZeroDivisionError
  | OverflowError
  | RequestException

subsection \<open>String operations of the Python library\<close>

text \<open>\<^verbatim>\<open>str.isspace\<close> on one character, for code points below 256.\<close>

definition is_space :: "char \<Rightarrow> bool" where
  "is_space c = (of_char c \<in> {9, 10, 11, 12, 13, 28, 29, 30, 31, 32, 133, 160 :: nat})"

text \<open>
  \<^verbatim>\<open>str.split()\<close> with no separator: the maximal runs of non-whitespace. The first
  character \<open>c\<close> after the leading whitespace is no whitespace, so the text after
  the word that starts with \<open>c\<close> is what is left of \<open>cs\<close> after its non-whitespace.
\<close>

function py_split :: "string \<Rightarrow> string list" where
  "py_split s =
     (case dropWhile is_space s of
        [] \<Rightarrow> []
      | c # cs \<Rightarrow> takeWhile (\<lambda>x. \<not> is_space x) (c # cs)
                  # py_split (dropWhile (\<lambda>x. \<not> is_space x) cs))"
  by pat_completeness auto
termination
proof (relation "measure length")
  fix s c cs
  assume "dropWhile is_space s = c # cs"
  then have "length cs < length s"
    using length_dropWhile_le [of is_space s] by simp
  moreover have "length (dropWhile (\<lambda>x. \<not> is_space x) cs) \<le> length cs"
    by (rule length_dropWhile_le)
  ultimately show "(dropWhile (\<lambda>x. \<not> is_space x) cs, s) \<in> measure length"
    by simp
qed simp

declare py_split.simps [simp del]

text \<open>\<^verbatim>\<open>str.strip()\<close> with no argument.\<close>

definition py_strip :: "string \<Rightarrow> string" where
  "py_strip s = rev (dropWhile is_space (rev (dropWhile is_space s)))"

text \<open>\<^verbatim>\<open>str.lower()\<close>, for code points below 256.\<close>

definition lower_char :: "char \<Rightarrow> char" where
  "lower_char c =
     (let n = (of_char c :: nat)
      in if (65 \<le> n \<and> n \<le> 90) \<or> (192 \<le> n \<and> n \<le> 222 \<and> n \<noteq> 215)
         then char_of (n + 32) else c)"

definition py_lower :: "string \<Rightarrow> string" where
  "py_lower s = map lower_char s"

text \<open>
  \<^verbatim>\<open>s.replace(old, new)\<close>: the occurrences of \<open>old\<close> are replaced from left to
  right, without overlap. With an empty \<open>old\<close>, Python puts \<open>new\<close> before every
  character and at the end.
\<close>

function py_replace :: "string \<Rightarrow> string \<Rightarrow> string \<Rightarrow> string" where
  "py_replace old new s =
     (if old = [] then new @ concat (map (\<lambda>c. c # new) s)
      else case s of
        [] \<Rightarrow> []
      | c # cs \<Rightarrow> if prefix old s then new @ py_replace old new (drop (length old) s)
                  else c # py_replace old new cs)"
  by pat_completeness auto
termination
  by (relation "measure (\<lambda>(old, new, s). length s)") auto

declare py_replace.simps [simp del]

text \<open>\<^verbatim>\<open>sep.join(xs)\<close>.\<close>

fun py_join :: "string \<Rightarrow> string list \<Rightarrow> string" where
  "py_join sep [] = []"
| "py_join sep [x] = x"
| "py_join sep (x # y # ys) = x @ sep @ py_join sep (y # ys)"

text \<open>\<^verbatim>\<open>str(n)\<close> for a non-negative integer.\<close>

definition digit_char :: "nat \<Rightarrow> char" where
  "digit_char d = char_of (48 + d)"

fun str_nat :: "nat \<Rightarrow> string" where
  "str_nat n = (if n < 10 then [digit_char n] else str_nat (n div 10) @ [digit_char (n mod 10)])"

declare str_nat.simps [simp del]

subsection \<open>Floating-point numbers\<close>

text \<open>
  A Python \<^verbatim>\<open>float\<close> is an IEEE 754 double: a number of the form \<open>m \<times> 2\<^sup>q\<close> with
  \<open>|m| < 2\<^sup>5\<^sup>3\<close> and \<open>- 1074 \<le> q\<close>, below \<open>2\<^sup>1\<^sup>0\<^sup>2\<^sup>4\<close> in magnitude, or an infinity, or
  not-a-number. A finite double is given by its exact value, a rational number.
  The two zeros of the format are one value, as \<^verbatim>\<open>==\<close> has them; the program never
  prints a zero.
\<close>

datatype pyfloat = Finite rat | PosInf | NegInf | NaN

definition pow2 :: "int \<Rightarrow> rat" where
  "pow2 e = (if 0 \<le> e then 2 ^ nat e else 1 / 2 ^ nat (- e))"

text \<open>The exponent \<open>e\<close> of a positive number \<open>a\<close>: \<open>2\<^sup>e \<le> a < 2\<^sup>e\<^sup>+\<^sup>1\<close>.\<close>

definition floor_log2 :: "rat \<Rightarrow> int" where
  "floor_log2 a = (if 1 \<le> a then bitlen \<lfloor>a\<rfloor> - 1 else - bitlen (\<lceil>1 / a\<rceil> - 1))"

text \<open>The nearest integer, a tie going to the even one.\<close>

definition round_half_even :: "rat \<Rightarrow> int" where
  "round_half_even x =
     (let f = \<lfloor>x\<rfloor>; d = x - of_int f
      in if d < 1 / 2 then f else if 1 / 2 < d then f + 1 else if even f then f else f + 1)"

text \<open>
  The rounding of a rational number to the nearest double, a tie going to the even
  significand: the number is rounded to a multiple of \<open>2\<^sup>q\<close>, where \<open>q\<close> is the
  exponent of the last of the 53 bits of its binade, or \<open>- 1074\<close> for a subnormal
  number. A result that reaches \<open>2\<^sup>1\<^sup>0\<^sup>2\<^sup>4\<close> is an infinity.
\<close>

definition rnd :: "rat \<Rightarrow> pyfloat" where
  "rnd x =
     (if x = 0 then Finite 0
      else
        let a = \<bar>x\<bar>;
            q = max (floor_log2 a - 52) (- 1074);
            r = of_int (round_half_even (a / pow2 q)) * pow2 q
        in if 1024 \<le> floor_log2 r then (if 0 < x then PosInf else NegInf)
           else Finite (if 0 < x then r else - r))"

text \<open>Addition, division and the comparison \<^verbatim>\<open><\<close> of doubles.\<close>

fun fadd :: "pyfloat \<Rightarrow> pyfloat \<Rightarrow> pyfloat" where
  "fadd (Finite a) (Finite b) = rnd (a + b)"
| "fadd NaN y = NaN"
| "fadd x NaN = NaN"
| "fadd PosInf NegInf = NaN"
| "fadd NegInf PosInf = NaN"
| "fadd PosInf y = PosInf"
| "fadd NegInf y = NegInf"
| "fadd (Finite a) y = y"

fun fquot :: "pyfloat \<Rightarrow> pyfloat \<Rightarrow> pyfloat" where
  "fquot (Finite a) (Finite b) =
     (if b = 0 then (if a = 0 then NaN else if 0 < a then PosInf else NegInf) else rnd (a / b))"
| "fquot NaN y = NaN"
| "fquot x NaN = NaN"
| "fquot (Finite a) y = Finite 0"
| "fquot PosInf (Finite b) = (if 0 \<le> b then PosInf else NegInf)"
| "fquot NegInf (Finite b) = (if 0 \<le> b then NegInf else PosInf)"
| "fquot x y = NaN"

fun flt :: "pyfloat \<Rightarrow> pyfloat \<Rightarrow> bool" where
  "flt (Finite a) (Finite b) = (a < b)"
| "flt NaN y = False"
| "flt x NaN = False"
| "flt x NegInf = False"
| "flt PosInf y = False"
| "flt NegInf y = True"
| "flt (Finite a) PosInf = True"

text \<open>
  The conversion of an \<^verbatim>\<open>int\<close> operand of a float operation, and \<^verbatim>\<open>x / n\<close> for a
  float \<open>x\<close> and an \<^verbatim>\<open>int\<close> \<open>n\<close>: both operands are converted, and a zero divisor
  raises.
\<close>

definition int_to_float :: "int \<Rightarrow> error + pyfloat" where
  "int_to_float n = (case rnd (of_int n) of Finite r \<Rightarrow> Inr (Finite r) | _ \<Rightarrow> Inl OverflowError)"

definition truediv :: "pyfloat \<Rightarrow> int \<Rightarrow> error + pyfloat" where
  "truediv x n =
     (case int_to_float n of
        Inl e \<Rightarrow> Inl e
      | Inr d \<Rightarrow> if d = Finite 0 then Inl ZeroDivisionError else Inr (fquot x d))"

text \<open>
  \<^verbatim>\<open>sum\<close> on a list of floats: the elements are added to 0 from left to right in
  double precision, as CPython does up to version 3.11 (later versions compensate
  the rounding errors of three or more summands).
\<close>

definition py_sum :: "pyfloat list \<Rightarrow> pyfloat" where
  "py_sum xs = foldl fadd (Finite 0) xs"

text \<open>
  \<^verbatim>\<open>float(s)\<close> on a string. The grammar is that of the language reference:
  optional sign, then \<^verbatim>\<open>inf\<close>, \<^verbatim>\<open>infinity\<close> or \<^verbatim>\<open>nan\<close> in any case, or a
  decimal number (digits, where single underscores may separate digits, with an
  optional point) and an optional exponent. The whitespace that is ignored around
  the literal is that of C, with the two spaces of Latin-1 beyond ASCII; the
  separators 28 to 31 are not ignored. Anything else raises \<^verbatim>\<open>ValueError\<close>. The
  decimal number is rounded to the nearest double, and to an infinity when it is
  too large.
\<close>

definition is_float_space :: "char \<Rightarrow> bool" where
  "is_float_space c = (of_char c \<in> {9, 10, 11, 12, 13, 32, 133, 160 :: nat})"

definition float_strip :: "string \<Rightarrow> string" where
  "float_strip s = rev (dropWhile is_float_space (rev (dropWhile is_float_space s)))"

definition digit_val :: "char \<Rightarrow> nat option" where
  "digit_val c =
     (let n = (of_char c :: nat) in if 48 \<le> n \<and> n \<le> 57 then Some (n - 48) else None)"

text \<open>
  \<open>digitpart v n s\<close> reads the longest digit part at the front of \<open>s\<close>, from the
  value \<open>v\<close> of the \<open>n\<close> digits read so far, and returns the value, the number of
  digits and the rest of the input.
\<close>

fun digitpart :: "nat \<Rightarrow> nat \<Rightarrow> string \<Rightarrow> nat \<times> nat \<times> string" where
  "digitpart v n [] = (v, n, [])"
| "digitpart v n (c # cs) =
     (case digit_val c of
        Some d \<Rightarrow> digitpart (10 * v + d) (Suc n) cs
      | None \<Rightarrow>
          if c = CHR ''_'' \<and> 0 < n \<and> (case cs of [] \<Rightarrow> False | c' # _ \<Rightarrow> digit_val c' \<noteq> None)
          then digitpart v n cs
          else (v, n, c # cs))"

text \<open>The sign at the front of a literal: whether it is negative, and the rest.\<close>

fun take_sign :: "string \<Rightarrow> bool \<times> string" where
  "take_sign [] = (False, [])"
| "take_sign (c # cs) =
     (if c = CHR ''-'' then (True, cs) else if c = CHR ''+'' then (False, cs) else (False, c # cs))"

text \<open>The exponent part, which must reach the end of the literal.\<close>

definition exponent :: "string \<Rightarrow> int option" where
  "exponent s =
     (case s of
        [] \<Rightarrow> Some 0
      | c # cs \<Rightarrow>
          if c = CHR ''e'' \<or> c = CHR ''E'' then
            (case take_sign cs of (neg, ds) \<Rightarrow>
               (case digitpart 0 0 ds of (v, n, rest) \<Rightarrow>
                  if 0 < n \<and> rest = [] then Some (if neg then - int v else int v) else None))
          else None)"

definition scale10 :: "rat \<Rightarrow> int \<Rightarrow> rat" where
  "scale10 x e = (if 0 \<le> e then x * 10 ^ nat e else x / 10 ^ nat (- e))"

definition py_float :: "string \<Rightarrow> error + pyfloat" where
  "py_float s =
     (case take_sign (float_strip s) of (neg, u) \<Rightarrow>
        if py_lower u \<in> {''inf'', ''infinity''} then Inr (if neg then NegInf else PosInf)
        else if py_lower u = ''nan'' then Inr NaN
        else
          (case digitpart 0 0 u of (ip, ni, r1) \<Rightarrow>
             (case (case r1 of
                      [] \<Rightarrow> (0, 0, [])
                    | c # cs \<Rightarrow> if c = CHR ''.'' then digitpart 0 0 cs else (0, 0, r1)) of
                (fp, nf, r2) \<Rightarrow>
                  if ni + nf = 0 then Inl ValueError
                  else
                    (case exponent r2 of
                       None \<Rightarrow> Inl ValueError
                     | Some e \<Rightarrow>
                         let m = scale10 (of_nat ip + of_nat fp / 10 ^ nf) e
                         in Inr (rnd (if neg then - m else m))))))"

text \<open>
  \<^verbatim>\<open>round(x, 2)\<close>: the exact value of the double is rounded to the nearest
  multiple of 0.01, a tie going to the even one, and the decimal number obtained
  is read back as a double. An infinity and not-a-number are returned unchanged.
\<close>

definition py_round2 :: "pyfloat \<Rightarrow> pyfloat" where
  "py_round2 x =
     (case x of
        Finite v \<Rightarrow> rnd (of_int (round_half_even (v * 100)) / 100)
      | _ \<Rightarrow> x)"

subsection \<open>The listing validator and the price normalizer\<close>

text \<open>
  \<^verbatim>\<open>is_valid_title\<close>: the loop returns \<^verbatim>\<open>False\<close> at the first keyword that is not
  among the words of the title.
\<close>

fun valid_keywords :: "string list \<Rightarrow> string list \<Rightarrow> bool" where
  "valid_keywords title_words [] = True"
| "valid_keywords title_words (keyword # rest) =
     (if keyword \<notin> set title_words then False else valid_keywords title_words rest)"

definition is_valid_title :: "string \<Rightarrow> string list \<Rightarrow> bool" where
  "is_valid_title title search_keywords = valid_keywords (py_split title) search_keywords"

text \<open>
  The generator \<^verbatim>\<open>sum(float(num) for num in ... if num != 'to')\<close>: the tokens are
  converted and added in order, from 0, and the first token that is no number
  raises.
\<close>

fun sum_floats :: "pyfloat \<Rightarrow> string list \<Rightarrow> error + pyfloat" where
  "sum_floats acc [] = Inr acc"
| "sum_floats acc (num # nums) =
     (if num \<noteq> ''to'' then
        (case py_float num of Inl e \<Rightarrow> Inl e | Inr x \<Rightarrow> sum_floats (fadd acc x) nums)
      else sum_floats acc nums)"

definition process_price :: "string \<Rightarrow> error + pyfloat" where
  "process_price price0 =
     (let price = py_replace '','' [] (py_replace ''$'' [] price0)
      in if sublist ''to'' price then
           (case sum_floats (Finite 0) (py_split price) of
              Inl e \<Rightarrow> Inl e
            | Inr s \<Rightarrow>
                (case truediv s 2 of
                   Inl e \<Rightarrow> Inl e
                 | Inr half \<Rightarrow> Inr (py_round2 half)))
         else
           (case py_float price of
              Inl e \<Rightarrow> Inl e
            | Inr x \<Rightarrow> Inr (py_round2 x)))"

subsection \<open>Listing nodes and responses\<close>

text \<open>
  A listing node is given by what \<^verbatim>\<open>parse_listing\<close> reads from it: for each class
  it looks up, whether \<^verbatim>\<open>find\<close> returns an element (\<open>None\<close> when it does not) and
  the value read from the element. The \<^verbatim>\<open>.string\<close> of an element is \<open>None\<close> when
  the element has no single string child; an element can lack the \<^verbatim>\<open>href\<close>
  attribute.
\<close>

record listing_node =
  title_text :: "string option"
  price_text :: "string option"
  sold_string :: "string option option"
  link_href :: "string option option"
  subtitle_text :: "string option"

text \<open>
  What \<^verbatim>\<open>requests.get\<close> and the lookup of the results container give for a URL:
  the transport raises, or the document arrives and either has no results
  container or has one, with the listing nodes that \<^verbatim>\<open>find_all\<close> returns in it.
\<close>

datatype response = Raises error | Document "listing_node list option"

type_synonym web = "string \<Rightarrow> response"

type_synonym price_dict = "(string \<times> pyfloat list) list"

type_synonym averages = "(string \<times> pyfloat) list"

type_synonym summary = "(string \<times> averages) list"

subsection \<open>Fetching and parsing\<close>

definition search_url :: "string list \<Rightarrow> nat \<Rightarrow> string" where
  "search_url search_keywords page_number =
     ''https://www.ebay.com/sch/i.html?_nkw='' @ py_join ''+'' search_keywords
       @ ''&_sacat=0&rt=nc&LH_Sold=1&LH_Complete=1&_pgn='' @ str_nat page_number"

definition fetch_listings :: "web \<Rightarrow> string list \<Rightarrow> nat \<Rightarrow> error + listing_node list option" where
  "fetch_listings web search_keywords page_number =
     (case web (search_url search_keywords page_number) of
        Raises e \<Rightarrow> Inl e
      | Document listings_section \<Rightarrow> Inr listings_section)"

text \<open>
  \<^verbatim>\<open>parse_listing\<close> reads the fields in the order title, price, date, link,
  condition. Reading \<^verbatim>\<open>.text\<close> or \<^verbatim>\<open>.string\<close> of \<^verbatim>\<open>None\<close>, or calling
  \<^verbatim>\<open>.replace\<close> on \<^verbatim>\<open>None\<close>, raises \<^verbatim>\<open>AttributeError\<close>; subscripting \<^verbatim>\<open>None\<close>
  raises \<^verbatim>\<open>TypeError\<close>; a missing attribute raises \<^verbatim>\<open>KeyError\<close>.
\<close>

definition parse_listing ::
  "listing_node \<Rightarrow> error + (string \<times> string \<times> string \<times> string \<times> string)" where
  "parse_listing item =
     (case title_text item of
        None \<Rightarrow> Inl AttributeError
      | Some t \<Rightarrow>
     (case price_text item of
        None \<Rightarrow> Inl AttributeError
      | Some price \<Rightarrow>
     (case sold_string item of
        None \<Rightarrow> Inl AttributeError
      | Some None \<Rightarrow> Inl AttributeError
      | Some (Some sold) \<Rightarrow>
     (case link_href item of
        None \<Rightarrow> Inl TypeError
      | Some None \<Rightarrow> Inl KeyError
      | Some (Some href) \<Rightarrow>
          Inr (py_lower t,
               price,
               py_strip (py_replace ''Sold'' [] sold),
               takeWhile (\<lambda>c. c \<noteq> CHR ''?'') href,
               (case subtitle_text item of Some c \<Rightarrow> py_lower c | None \<Rightarrow> ''Unknown''))))))"

subsection \<open>Scraping one term\<close>

text \<open>
  Lines 62 to 64: the date gets an empty list when it is new, and the price is
  appended to the list of the date.
\<close>

definition record_price :: "string \<Rightarrow> pyfloat \<Rightarrow> price_dict \<Rightarrow> price_dict" where
  "record_price date price_value month_price_dict =
     (let d = (if date \<notin> fst ` set month_price_dict
               then AList.update date [] month_price_dict else month_price_dict)
      in AList.update date ((case map_of d date of Some prices \<Rightarrow> prices | None \<Rightarrow> []) @ [price_value]) d)"

text \<open>The body of the \<^verbatim>\<open>try\<close> statement, for one listing node.\<close>

definition try_listing :: "string list \<Rightarrow> listing_node \<Rightarrow> price_dict \<Rightarrow> error + price_dict" where
  "try_listing search_keywords item month_price_dict =
     (case parse_listing item of
        Inl e \<Rightarrow> Inl e
      | Inr (title, price, date, link, condition) \<Rightarrow>
          if is_valid_title title search_keywords then
            (case process_price price of
               Inl e \<Rightarrow> Inl e
             | Inr price_value \<Rightarrow>
                 if flt (Finite 10) price_value \<and> flt price_value (Finite 900)
                 then Inr (record_price date price_value month_price_dict)
                 else Inr month_price_dict)
          else Inr month_price_dict)"

text \<open>
  The loop over the listing nodes of a page: \<^verbatim>\<open>except ValueError: continue\<close>
  catches \<^verbatim>\<open>ValueError\<close> and nothing else.
\<close>

fun scrape_listings :: "string list \<Rightarrow> listing_node list \<Rightarrow> price_dict \<Rightarrow> error + price_dict" where
  "scrape_listings search_keywords [] month_price_dict = Inr month_price_dict"
| "scrape_listings search_keywords (item # listings) month_price_dict =
     (case try_listing search_keywords item month_price_dict of
        Inl e \<Rightarrow>
          if e = ValueError then scrape_listings search_keywords listings month_price_dict
          else Inl e
      | Inr d \<Rightarrow> scrape_listings search_keywords listings d)"

text \<open>The loop over the page numbers; the call of \<^verbatim>\<open>fetch_listings\<close> is outside the \<^verbatim>\<open>try\<close>.\<close>

fun scrape_pages :: "web \<Rightarrow> string list \<Rightarrow> nat list \<Rightarrow> price_dict \<Rightarrow> error + price_dict" where
  "scrape_pages web search_keywords [] month_price_dict = Inr month_price_dict"
| "scrape_pages web search_keywords (page_number # pages) month_price_dict =
     (case fetch_listings web search_keywords page_number of
        Inl e \<Rightarrow> Inl e
      | Inr None \<Rightarrow> scrape_pages web search_keywords pages month_price_dict
      | Inr (Some listings) \<Rightarrow>
          (case scrape_listings search_keywords listings month_price_dict of
             Inl e \<Rightarrow> Inl e
           | Inr d \<Rightarrow> scrape_pages web search_keywords pages d))"

definition scrape_ebay_for_term :: "web \<Rightarrow> string \<Rightarrow> price_dict \<Rightarrow> error + price_dict" where
  "scrape_ebay_for_term web search_term month_price_dict =
     scrape_pages web (py_split (py_lower search_term)) [1..<14] month_price_dict"

subsection \<open>The batch\<close>

text \<open>
  The dictionary comprehension of lines 92 to 95; \<^verbatim>\<open>sum(prices) / len(prices)\<close>
  raises \<^verbatim>\<open>ZeroDivisionError\<close> on an empty list.
\<close>

fun daily_averages :: "price_dict \<Rightarrow> error + averages" where
  "daily_averages [] = Inr []"
| "daily_averages ((date, prices) # rest) =
     (case truediv (py_sum prices) (int (length prices)) of
        Inl e \<Rightarrow> Inl e
      | Inr m \<Rightarrow>
          (case daily_averages rest of
             Inl e \<Rightarrow> Inl e
           | Inr avgs \<Rightarrow> Inr ((date, py_round2 m) # avgs)))"

datatype cell = Str string | Num pyfloat

definition input_file :: string where
  "input_file = ''search_terms.csv''"

definition output_file :: string where
  "output_file = ''Average_Prices_By_Day.csv''"

text \<open>
  The loop over the rows of the input file. It returns the exception that ended
  it, if any, with the summary and the lines printed so far.
\<close>

fun process_rows ::
  "web \<Rightarrow> string list list \<Rightarrow> summary \<Rightarrow> string list \<Rightarrow> error option \<times> summary \<times> string list" where
  "process_rows web [] summary_data out = (None, summary_data, out)"
| "process_rows web (row # rows) summary_data out =
     (case row of
        [] \<Rightarrow> process_rows web rows summary_data out
      | first # _ \<Rightarrow>
          let search_term = py_strip first
          in if search_term = [] then process_rows web rows summary_data out
             else
               let out1 = out @ [''Processing: '' @ search_term]
               in (case scrape_ebay_for_term web search_term [] of
                     Inl e \<Rightarrow> (Some e, summary_data, out1)
                   | Inr month_price_dict \<Rightarrow>
                       (case daily_averages month_price_dict of
                          Inl e \<Rightarrow> (Some e, summary_data, out1)
                        | Inr avgs \<Rightarrow>
                            process_rows web rows (AList.update search_term avgs summary_data) out1)))"

text \<open>Line 103: the sorted list of the set of all dates of all terms.\<close>

definition all_dates :: "summary \<Rightarrow> string list" where
  "all_dates summary_data =
     sorted_list_of_set (set (concat (map (\<lambda>(search_term, avgs). map fst avgs) summary_data)))"

definition table :: "summary \<Rightarrow> cell list list" where
  "table summary_data =
     (let dates = all_dates summary_data
      in (Str ''CPU Name'' # map Str dates)
         # map (\<lambda>(search_term, avgs).
                  Str search_term
                  # map (\<lambda>date. case map_of avgs date of Some v \<Rightarrow> Num v | None \<Rightarrow> Str []) dates)
               summary_data)"

text \<open>
  A run of \<^verbatim>\<open>main\<close>: the exception that ended it, if any, the lines printed and
  the files written. The files that exist before the run are given by name, as
  the rows that \<^verbatim>\<open>csv.reader\<close> yields.
\<close>

record run =
  raised :: "error option"
  stdout :: "string list"
  written :: "(string \<times> cell list list) list"

definition main :: "web \<Rightarrow> (string \<rightharpoonup> string list list) \<Rightarrow> run" where
  "main web files =
     (case files input_file of
        None \<Rightarrow>
          \<lparr>raised = None,
           stdout = [''Error: '' @ [CHR 0x27] @ input_file @ [CHR 0x27]
                       @ '' not found. Make sure the file exists.''],
           written = []\<rparr>
      | Some rows \<Rightarrow>
          (case process_rows web rows [] [] of
             (Some e, summary_data, out) \<Rightarrow> \<lparr>raised = Some e, stdout = out, written = []\<rparr>
           | (None, summary_data, out) \<Rightarrow>
               \<lparr>raised = None,
                stdout = out @ [''Summary data written to '' @ output_file],
                written = [(output_file, table summary_data)]\<rparr>))"

subsection \<open>Notions of the specification\<close>

text \<open>
  A standalone token of a text: a non-empty stretch without whitespace that is
  delimited on each side by whitespace or by the end of the text.
\<close>

definition standalone_token :: "string \<Rightarrow> string \<Rightarrow> bool" where
  "standalone_token t s =
     (t \<noteq> [] \<and> (\<forall>c\<in>set t. \<not> is_space c) \<and>
      (\<exists>pre post. s = pre @ t @ post \<and> (pre = [] \<or> is_space (last pre)) \<and>
                  (post = [] \<or> is_space (hd post))))"

text \<open>
  The aggregator of one term, fed a sequence of observations (date, price): each
  observation is recorded as lines 62 to 64 do, from the empty dictionary, and
  the dictionary is finalized by \<^const>\<open>daily_averages\<close>.
\<close>

definition feed :: "(string \<times> pyfloat) list \<Rightarrow> price_dict \<Rightarrow> price_dict" where
  "feed observations month_price_dict =
     fold (\<lambda>(date, price_value). record_price date price_value) observations month_price_dict"

definition finalize :: "(string \<times> pyfloat) list \<Rightarrow> error + averages" where
  "finalize observations = daily_averages (feed observations [])"

definition prices_on :: "string \<Rightarrow> (string \<times> pyfloat) list \<Rightarrow> pyfloat list" where
  "prices_on date observations = map snd (filter (\<lambda>(d, p). d = date) observations)"

text \<open>The mean of a list of doubles, as line 93 computes it for a list that is not empty.\<close>

definition float_mean :: "pyfloat list \<Rightarrow> pyfloat" where
  "float_mean prices = fquot (py_sum prices) (Finite (of_nat (length prices)))"

definition prices_in_bounds :: "price_dict \<Rightarrow> bool" where
  "prices_in_bounds month_price_dict =
     (\<forall>(date, prices)\<in>set month_price_dict. \<forall>p\<in>set prices. \<exists>v. p = Finite v \<and> 10 < v \<and> v < 900)"

text \<open>
  The calendar date that a sold-date text of the form \<^verbatim>\<open>Jan 5, 2024\<close> denotes, as
  (year, month, day), and the chronological order of such texts. The program
  keeps the text and never computes the date; the notion is needed to say what
  a chronological order of the columns is.
\<close>

definition month_number :: "string \<Rightarrow> nat option" where
  "month_number m =
     map_of [(''Jan'', 1), (''Feb'', 2), (''Mar'', 3), (''Apr'', 4), (''May'', 5), (''Jun'', 6),
             (''Jul'', 7), (''Aug'', 8), (''Sep'', 9), (''Oct'', 10), (''Nov'', 11), (''Dec'', 12)] m"

definition calendar_date :: "string \<Rightarrow> (nat \<times> nat \<times> nat) option" where
  "calendar_date s =
     (case py_split s of
        [m, d, y] \<Rightarrow>
          (case (month_number m, digitpart 0 0 d, digitpart 0 0 y) of
             (Some mn, (dv, dn, drest), (yv, yn, yrest)) \<Rightarrow>
               if 0 < dn \<and> drest = '','' \<and> 0 < yn \<and> yrest = [] then Some (yv, mn, dv) else None
           | _ \<Rightarrow> None)
      | _ \<Rightarrow> None)"

fun date_le :: "nat \<times> nat \<times> nat \<Rightarrow> nat \<times> nat \<times> nat \<Rightarrow> bool" where
  "date_le (y1, m1, d1) (y2, m2, d2) = (y1 < y2 \<or> (y1 = y2 \<and> (m1 < m2 \<or> (m1 = m2 \<and> d1 \<le> d2))))"

definition not_later :: "string \<Rightarrow> string \<Rightarrow> bool" where
  "not_later a b =
     (case (calendar_date a, calendar_date b) of
        (Some x, Some y) \<Rightarrow> date_le x y
      | _ \<Rightarrow> True)"

definition chronological :: "string list \<Rightarrow> bool" where
  "chronological dates = sorted_wrt not_later dates"

subsection \<open>Example inputs\<close>

definition ryzen_listing :: listing_node where
  "ryzen_listing =
     \<lparr>title_text = Some ''AMD Ryzen 5 3600 CPU'',
      price_text = Some ''$150.00'',
      sold_string = Some (Some ''Sold  Jan 5, 2024''),
      link_href = Some (Some ''https://www.ebay.com/itm/1?hash=item1''),
      subtitle_text = None\<rparr>"

text \<open>A service without results: no page has the results container.\<close>

definition empty_web :: web where
  "empty_web url = Document None"

text \<open>
  Page 1 of the search for \<^verbatim>\<open>ryzen 5\<close> has listings at 150.00, at 5.00, over the
  range 100 to 300, and one with a price text that is no number; page 2 has one
  listing sold in February; the other pages have no results container.
\<close>

definition ryzen_web :: web where
  "ryzen_web url =
     (if url = search_url [''ryzen'', ''5''] 1 then
        Document (Some [ryzen_listing,
                        ryzen_listing\<lparr>price_text := Some ''$5.00''\<rparr>,
                        ryzen_listing\<lparr>price_text := Some ''$100.00 to $300.00''\<rparr>,
                        ryzen_listing\<lparr>price_text := Some ''Best offer''\<rparr>])
      else if url = search_url [''ryzen'', ''5''] 2 then
        Document (Some [ryzen_listing\<lparr>sold_string := Some (Some ''Sold  Feb 1, 2024'')\<rparr>])
      else Document None)"

text \<open>The transport fails on page 2 of the search for \<^verbatim>\<open>ryzen 5\<close>.\<close>

definition failing_web :: web where
  "failing_web url =
     (if url = search_url [''ryzen'', ''5''] 2 then Raises RequestException else ryzen_web url)"

text \<open>The transport fails on page 1 of the search for \<^verbatim>\<open>i7 9700k\<close>.\<close>

definition unreachable_web :: web where
  "unreachable_web url =
     (if url = search_url [''i7'', ''9700k''] 1 then Raises RequestException else ryzen_web url)"

text \<open>
  Page 1 has listings whose price texts are \<^verbatim>\<open>$10.005\<close>, \<^verbatim>\<open>nan\<close>, \<^verbatim>\<open>inf\<close>, the
  two bounds \<^verbatim>\<open>$10.00\<close> and \<^verbatim>\<open>$900.00\<close>, and \<^verbatim>\<open>$899.99\<close>.
\<close>

definition bounds_web :: web where
  "bounds_web url =
     (if url = search_url [''ryzen'', ''5''] 1 then
        Document (Some [ryzen_listing\<lparr>price_text := Some ''$10.005''\<rparr>,
                        ryzen_listing\<lparr>price_text := Some ''nan''\<rparr>,
                        ryzen_listing\<lparr>price_text := Some ''inf''\<rparr>,
                        ryzen_listing\<lparr>price_text := Some ''$10.00''\<rparr>,
                        ryzen_listing\<lparr>price_text := Some ''$900.00''\<rparr>,
                        ryzen_listing\<lparr>price_text := Some ''$899.99''\<rparr>])
      else Document None)"

text \<open>Page 1 has a listing without title element, followed by a complete listing.\<close>

definition untitled_web :: web where
  "untitled_web url =
     (if url = search_url [''ryzen'', ''5''] 1 then
        Document (Some [ryzen_listing\<lparr>title_text := None\<rparr>, ryzen_listing])
      else Document None)"

section \<open>Properties\<close>

subsection \<open>Rounding to a double\<close>

lemma pow2_powi: "pow2 e = 2 powi e"
  by (simp add: pow2_def power_int_def inverse_eq_divide power_one_over)

lemma pow2_pos [simp]: "0 < pow2 e"
  by (simp add: pow2_powi)

lemma pow2_nonzero [simp]: "pow2 e \<noteq> 0"
  using pow2_pos [of e] by (rule less_imp_neq [symmetric])

lemma pow2_nonneg [simp]: "0 \<le> pow2 e"
  using pow2_pos [of e] by (rule less_imp_le)

lemma pow2_add: "pow2 (i + j) = pow2 i * pow2 j"
  by (simp add: pow2_powi power_int_add)

lemma pow2_mono: "i \<le> j \<Longrightarrow> pow2 i \<le> pow2 j"
  by (simp add: pow2_powi power_int_increasing)

lemma pow2_less_cancel: "pow2 i < pow2 j \<Longrightarrow> i < j"
  using pow2_mono [of j i] by (cases "i < j") auto

lemma pow2_nonneg_int: "0 \<le> e \<Longrightarrow> pow2 e = of_int (2 ^ nat e)"
  by (simp add: pow2_def)

lemma pow2_53: "pow2 53 = 9007199254740992"
  by (simp add: pow2_def)

lemma pow2_split: "q' \<le> q \<Longrightarrow> pow2 q = of_int (2 ^ nat (q - q')) * pow2 q'"
proof -
  assume "q' \<le> q"
  then have "pow2 (q - q') = of_int (2 ^ nat (q - q'))" by (simp add: pow2_nonneg_int)
  moreover have "pow2 q = pow2 (q - q') * pow2 q'" using pow2_add [of "q - q'" q'] by simp
  ultimately show ?thesis by simp
qed

text \<open>\<^const>\<open>floor_log2\<close> gives the exponent of a positive number, which is unique.\<close>

lemma floor_log2_bounds:
  assumes "0 < a"
  shows "pow2 (floor_log2 a) \<le> a" and "a < pow2 (floor_log2 a + 1)"
proof -
  have both: "pow2 (floor_log2 a) \<le> a \<and> a < pow2 (floor_log2 a + 1)"
  proof (cases "1 \<le> a")
    case True
    let ?n = "\<lfloor>a\<rfloor>"
    have n: "0 < ?n" using True by simp
    from bitlen_bounds [OF n] have b: "2 ^ nat (bitlen ?n - 1) \<le> ?n" "?n < 2 ^ nat (bitlen ?n)"
      by auto
    have bl: "1 \<le> bitlen ?n" using n by (simp add: bitlen_alt_def)
    have "pow2 (bitlen ?n - 1) = of_int (2 ^ nat (bitlen ?n - 1))"
      using bl by (simp add: pow2_nonneg_int)
    also have "\<dots> \<le> of_int ?n" using b(1) by (simp only: of_int_le_iff)
    also have "\<dots> \<le> a" by simp
    finally have lo: "pow2 (bitlen ?n - 1) \<le> a" .
    have "?n + 1 \<le> 2 ^ nat (bitlen ?n)" using b(2) by simp
    then have "(of_int (?n + 1) :: rat) \<le> of_int (2 ^ nat (bitlen ?n))"
      by (simp only: of_int_le_iff)
    moreover have "a < of_int (?n + 1)" by linarith
    moreover have "pow2 (bitlen ?n - 1 + 1) = of_int (2 ^ nat (bitlen ?n))"
      using bl by (simp add: pow2_nonneg_int)
    ultimately have "a < pow2 (bitlen ?n - 1 + 1)" by simp
    with lo True show ?thesis by (simp add: floor_log2_def)
  next
    case False
    let ?b = "1 / a"
    let ?N = "\<lceil>?b\<rceil>"
    let ?k = "bitlen (?N - 1)"
    have b1: "1 < ?b" using False assms by simp
    then have N: "0 < ?N - 1" by simp
    from bitlen_bounds [OF N] have b: "2 ^ nat (?k - 1) \<le> ?N - 1" "?N - 1 < 2 ^ nat ?k"
      by auto
    have k: "1 \<le> ?k" using N by (simp add: bitlen_alt_def)
    have "?N \<le> 2 ^ nat ?k" using b(2) by simp
    then have "(of_int ?N :: rat) \<le> of_int (2 ^ nat ?k)" by (simp only: of_int_le_iff)
    with le_of_int_ceiling [of ?b] have "?b \<le> of_int (2 ^ nat ?k)" by (rule order_trans)
    then have "?b \<le> 2 ^ nat ?k" by simp
    then have "1 / 2 ^ nat ?k \<le> a"
      using assms by (simp add: field_simps)
    moreover have "pow2 (- ?k) = 1 / 2 ^ nat ?k"
      using k by (simp add: pow2_def)
    ultimately have lo: "pow2 (- ?k) \<le> a" by simp
    have "(of_int (2 ^ nat (?k - 1)) :: rat) \<le> of_int (?N - 1)"
      using b(1) by (simp only: of_int_le_iff)
    moreover have "of_int (?N - 1) < ?b" by linarith
    ultimately have "(of_int (2 ^ nat (?k - 1)) :: rat) < ?b" by (rule le_less_trans)
    then have "2 ^ nat (?k - 1) < ?b" by simp
    then have "a < 1 / 2 ^ nat (?k - 1)"
      using assms by (simp add: field_simps)
    moreover have "pow2 (- ?k + 1) = 1 / 2 ^ nat (?k - 1)"
    proof (cases "?k = 1")
      case True
      then show ?thesis by (simp add: pow2_def)
    next
      case False
      with k have "- ?k + 1 < 0" by simp
      moreover have "nat (- (- ?k + 1)) = nat (?k - 1)" by simp
      ultimately show ?thesis by (simp add: pow2_def)
    qed
    ultimately have "a < pow2 (- ?k + 1)" by simp
    with lo False show ?thesis by (simp add: floor_log2_def)
  qed
  from both show "pow2 (floor_log2 a) \<le> a" by simp
  from both show "a < pow2 (floor_log2 a + 1)" by simp
qed

lemma floor_log2_unique:
  assumes "pow2 e \<le> a" and "a < pow2 (e + 1)"
  shows "floor_log2 a = e"
proof -
  have pos: "0 < a" using assms(1) pow2_pos [of e] by linarith
  note b = floor_log2_bounds [OF pos]
  have "pow2 (floor_log2 a) < pow2 (e + 1)" using b(1) assms(2) by linarith
  then have "floor_log2 a < e + 1" by (rule pow2_less_cancel)
  moreover have "pow2 e < pow2 (floor_log2 a + 1)" using b(2) assms(1) by linarith
  then have "e < floor_log2 a + 1" by (rule pow2_less_cancel)
  ultimately show ?thesis by simp
qed

lemma floor_log2_less: "0 < a \<Longrightarrow> a < pow2 k \<Longrightarrow> floor_log2 a < k"
  using floor_log2_bounds(1) [of a] pow2_less_cancel [of "floor_log2 a" k] by force

lemma round_half_even_of_int [simp]: "round_half_even (of_int z) = z"
  by (simp add: round_half_even_def)

text \<open>\<^const>\<open>round_half_even\<close> gives a nearest integer, the even one at a tie.\<close>

lemma round_half_even_near: "\<bar>x - of_int (round_half_even x)\<bar> \<le> 1 / 2"
proof -
  have "of_int \<lfloor>x\<rfloor> \<le> x" "x < of_int \<lfloor>x\<rfloor> + 1" by linarith+
  then show ?thesis
    by (auto simp: round_half_even_def Let_def abs_le_iff)
qed

lemma round_half_even_tie:
  assumes "\<bar>x - of_int (round_half_even x)\<bar> = 1 / 2"
  shows "even (round_half_even x)"
proof -
  define f where "f = \<lfloor>x\<rfloor>"
  define d where "d = x - of_int f"
  have d: "0 \<le> d" "d < 1" unfolding d_def f_def by linarith+
  have rh: "round_half_even x = (if d < 1 / 2 then f else if 1 / 2 < d then f + 1 else if even f then f else f + 1)"
    by (simp add: round_half_even_def Let_def f_def d_def)
  consider "d < 1 / 2" | "1 / 2 < d" | "d = 1 / 2" by linarith
  then show ?thesis
  proof cases
    case 1
    then have "round_half_even x = f" by (simp add: rh)
    then have "\<bar>x - of_int (round_half_even x)\<bar> = d" using d by (simp add: d_def)
    with assms 1 show ?thesis by simp
  next
    case 2
    then have "round_half_even x = f + 1" by (simp add: rh)
    then have "\<bar>x - of_int (round_half_even x)\<bar> = 1 - d" using d by (simp add: d_def)
    with assms 2 show ?thesis by simp
  next
    case 3
    then show ?thesis by (simp add: rh)
  qed
qed

lemma round_half_even_le: "x \<le> of_int n \<Longrightarrow> round_half_even x \<le> n"
proof -
  assume a: "x \<le> of_int n"
  show ?thesis
  proof (cases "x = of_int n")
    case True
    then show ?thesis by simp
  next
    case False
    with a have "x < of_int n" by simp
    then have "\<lfloor>x\<rfloor> < n" by (simp add: floor_less_iff)
    then show ?thesis by (auto simp: round_half_even_def Let_def)
  qed
qed

lemma round_half_even_ge: "of_int n \<le> x \<Longrightarrow> n \<le> round_half_even x"
proof -
  assume "of_int n \<le> x"
  then have "n \<le> \<lfloor>x\<rfloor>" by (simp add: le_floor_iff)
  then show ?thesis by (auto simp: round_half_even_def Let_def)
qed

text \<open>
  A number \<open>m \<times> 2\<^sup>q\<close> with \<open>0 < m < 2\<^sup>5\<^sup>3\<close> and \<open>- 1074 \<le> q\<close> below \<open>2\<^sup>1\<^sup>0\<^sup>2\<^sup>4\<close> is a double:
  rounding leaves it unchanged.
\<close>

lemma rnd_dyadic_pos:
  assumes "0 < m" and "m < 2 ^ 53" and "- 1074 \<le> q"
      and "of_int m * pow2 q < pow2 1024"
  shows "rnd (of_int m * pow2 q) = Finite (of_int m * pow2 q)"
    and "rnd (- (of_int m * pow2 q)) = Finite (- (of_int m * pow2 q))"
proof -
  define a :: rat where "a = of_int m * pow2 q"
  have apos: "0 < a" using assms(1) by (simp add: a_def)
  define Q where "Q = max (floor_log2 a - 52) (- 1074)"
  have "(of_int m :: rat) < of_int (2 ^ 53)" using assms(2) by (simp only: of_int_less_iff)
  then have "(of_int m :: rat) < pow2 53" by (simp add: pow2_53)
  then have "a < pow2 53 * pow2 q" unfolding a_def by (rule mult_strict_right_mono) simp
  then have "a < pow2 (53 + q)" by (simp only: pow2_add)
  with apos have "floor_log2 a < 53 + q" by (rule floor_log2_less)
  then have qq: "Q \<le> q" using assms(3) by (simp add: Q_def)
  have "a = of_int m * (of_int (2 ^ nat (q - Q)) * pow2 Q)"
    unfolding a_def using pow2_split [OF qq] by simp
  then have "a / pow2 Q = of_int m * of_int (2 ^ nat (q - Q))" by simp
  then have d: "a / pow2 Q = of_int (m * 2 ^ nat (q - Q))" by (simp only: of_int_mult)
  have "of_int (round_half_even (a / pow2 Q)) * pow2 Q = a / pow2 Q * pow2 Q"
    by (simp only: d round_half_even_of_int)
  also have "\<dots> = a" by simp
  finally have r: "of_int (round_half_even (a / pow2 Q)) * pow2 Q = a" .
  have "a < pow2 1024" using assms(4) by (simp only: a_def)
  with apos have "floor_log2 a < 1024" by (rule floor_log2_less)
  then have fin: "\<not> 1024 \<le> floor_log2 a" by simp
  have "rnd a = Finite a"
    unfolding rnd_def Let_def using apos fin r
    by (simp add: Q_def [symmetric] abs_of_pos)
  moreover have "rnd (- a) = Finite (- a)"
    unfolding rnd_def Let_def using apos fin r
    by (simp add: Q_def [symmetric] abs_of_pos)
  ultimately show "rnd (of_int m * pow2 q) = Finite (of_int m * pow2 q)"
    and "rnd (- (of_int m * pow2 q)) = Finite (- (of_int m * pow2 q))"
    by (simp_all only: a_def)
qed

text \<open>An integer below \<open>2\<^sup>5\<^sup>3\<close> in magnitude is a double.\<close>

lemma rnd_of_int:
  assumes "\<bar>n\<bar> < 2 ^ 53"
  shows "rnd (of_int n) = Finite (of_int n)"
proof -
  have big: "of_int m * pow2 0 < pow2 1024" if "m < 2 ^ 53" for m :: int
  proof -
    have "(of_int m :: rat) < of_int (2 ^ 53)" using that by (simp only: of_int_less_iff)
    then have "(of_int m :: rat) < pow2 53" by (simp add: pow2_53)
    also have "pow2 53 \<le> pow2 1024" by (rule pow2_mono) simp
    finally show ?thesis by (simp add: pow2_def)
  qed
  consider "n = 0" | "0 < n" | "n < 0" by linarith
  then show ?thesis
  proof cases
    case 1
    then show ?thesis by (simp add: rnd_def)
  next
    case 2
    with assms have "n < 2 ^ 53" by simp
    from rnd_dyadic_pos(1) [OF 2 this _ big [OF this]] show ?thesis by (simp add: pow2_def)
  next
    case 3
    then have p: "0 < - n" by simp
    from 3 assms have l: "- n < 2 ^ 53" by simp
    from rnd_dyadic_pos(2) [OF p l _ big [OF l]] show ?thesis by (simp add: pow2_def)
  qed
qed

text \<open>Rounding is idempotent: the finite results of \<^const>\<open>rnd\<close> are doubles.\<close>

lemma rnd_idem:
  assumes "rnd v = Finite a"
  shows "rnd a = Finite a"
proof (cases "v = 0")
  case True
  with assms show ?thesis by (simp add: rnd_def)
next
  case False
  define b where "b = \<bar>v\<bar>"
  define q where "q = max (floor_log2 b - 52) (- 1074)"
  define M where "M = round_half_even (b / pow2 q)"
  define r :: rat where "r = of_int M * pow2 q"
  have bpos: "0 < b" using False by (simp add: b_def)
  have unf: "rnd v = (if 1024 \<le> floor_log2 r then (if 0 < v then PosInf else NegInf)
                      else Finite (if 0 < v then r else - r))"
    using False by (simp add: rnd_def Let_def b_def q_def M_def r_def)
  from assms have fin: "\<not> 1024 \<le> floor_log2 r" and a: "a = (if 0 < v then r else - r)"
    unfolding unf by (auto split: if_splits)
  have q1074: "- 1074 \<le> q" by (simp add: q_def)
  have "0 \<le> b / pow2 q" using bpos by simp
  then have "of_int 0 \<le> b / pow2 q" by simp
  then have M0: "0 \<le> M" unfolding M_def by (rule round_half_even_ge)
  have "floor_log2 b + 1 \<le> 53 + q" by (simp add: q_def)
  then have "pow2 (floor_log2 b + 1) \<le> pow2 (53 + q)" by (rule pow2_mono)
  with floor_log2_bounds(2) [OF bpos] have "b < pow2 (53 + q)" by linarith
  then have "b < pow2 53 * pow2 q" by (simp only: pow2_add)
  then have "b / pow2 q < pow2 53" by (simp add: pos_divide_less_eq)
  then have "b / pow2 q \<le> of_int (2 ^ 53)" by (simp add: pow2_53)
  then have M53: "M \<le> 2 ^ 53" unfolding M_def by (rule round_half_even_le)
  show ?thesis
  proof (cases "M = 0")
    case True
    with a show ?thesis by (simp add: r_def rnd_def)
  next
    case Mne: False
    with M0 have Mpos: "0 < M" by simp
    then have rpos: "0 < r" by (simp add: r_def)
    have "r < pow2 (floor_log2 r + 1)" by (rule floor_log2_bounds(2) [OF rpos])
    moreover have "pow2 (floor_log2 r + 1) \<le> pow2 1024" using fin by (intro pow2_mono) simp
    ultimately have rlt: "r < pow2 1024" by linarith
    have both: "rnd r = Finite r \<and> rnd (- r) = Finite (- r)"
    proof (cases "M < 2 ^ 53")
      case True
      have b: "of_int M * pow2 q < pow2 1024" using rlt by (simp only: r_def)
      from rnd_dyadic_pos [OF Mpos True q1074 b] show ?thesis by (simp only: r_def)
    next
      case False
      with M53 have M: "M = 2 ^ 53" by simp
      have "pow2 (q + 1) = 2 * pow2 q" using pow2_add [of 1 q] by (simp add: pow2_def add.commute)
      then have r2: "r = of_int (2 ^ 52) * pow2 (q + 1)" by (simp add: r_def M)
      have p: "(0::int) < 2 ^ 52" and l: "(2::int) ^ 52 < 2 ^ 53" by simp_all
      have q': "- 1074 \<le> q + 1" using q1074 by simp
      have b: "of_int (2 ^ 52) * pow2 (q + 1) < pow2 1024" using rlt by (simp only: r2)
      from rnd_dyadic_pos [OF p l q' b] show ?thesis by (simp only: r2)
    qed
    with a show ?thesis by (simp split: if_splits)
  qed
qed

text \<open>
  The equation by which \<^const>\<open>rnd\<close> is evaluated: an integer below \<open>2\<^sup>5\<^sup>3\<close> is returned
  as it is.
\<close>

lemma rnd_code [code]:
  "rnd x =
     (if of_int \<lfloor>x\<rfloor> = x \<and> \<bar>x\<bar> < 9007199254740992 then Finite x
      else
        let a = \<bar>x\<bar>;
            q = max (floor_log2 a - 52) (- 1074);
            r = of_int (round_half_even (a / pow2 q)) * pow2 q
        in if 1024 \<le> floor_log2 r then (if 0 < x then PosInf else NegInf)
           else Finite (if 0 < x then r else - r))"
proof (cases "of_int \<lfloor>x\<rfloor> = x \<and> \<bar>x\<bar> < 9007199254740992")
  case True
  define n where "n = \<lfloor>x\<rfloor>"
  from True have x: "x = of_int n" by (simp only: n_def)
  from True have "\<bar>x\<bar> < 9007199254740992" by (rule conjunct2)
  then have "n < 9007199254740992" and "- 9007199254740992 < n"
    unfolding x by (simp_all add: abs_less_iff)
  then have "\<bar>n\<bar> < 2 ^ 53" by simp
  then have "rnd (of_int n) = Finite (of_int n)" by (rule rnd_of_int)
  then have "rnd x = Finite x" by (simp only: x)
  then show ?thesis by (simp only: eqTrueI [OF True] if_True)
next
  case False
  then have "x \<noteq> 0" by auto
  with False show ?thesis by (simp only: rnd_def if_False)
qed

text \<open>
  A finite result of \<^const>\<open>rnd\<close> is within half a unit of the last place of the
  number rounded.
\<close>

lemma rnd_error:
  assumes "rnd x = Finite r" and "x \<noteq> 0"
  shows "\<bar>r - x\<bar> \<le> pow2 (max (floor_log2 \<bar>x\<bar> - 52) (- 1074)) / 2"
proof -
  define q where "q = max (floor_log2 \<bar>x\<bar> - 52) (- 1074)"
  define M where "M = round_half_even (\<bar>x\<bar> / pow2 q)"
  from assms have r: "r = (if 0 < x then of_int M * pow2 q else - (of_int M * pow2 q))"
    by (auto simp: rnd_def Let_def q_def M_def split: if_splits)
  have "\<bar>\<bar>x\<bar> / pow2 q - of_int M\<bar> \<le> 1 / 2"
    unfolding M_def by (rule round_half_even_near)
  then have "\<bar>\<bar>x\<bar> / pow2 q - of_int M\<bar> * pow2 q \<le> 1 / 2 * pow2 q"
    by (rule mult_right_mono) simp
  moreover have "\<bar>\<bar>x\<bar> / pow2 q - of_int M\<bar> * pow2 q = \<bar>\<bar>x\<bar> - of_int M * pow2 q\<bar>"
  proof -
    have "\<bar>\<bar>x\<bar> / pow2 q - of_int M\<bar> * pow2 q = \<bar>(\<bar>x\<bar> / pow2 q - of_int M) * pow2 q\<bar>"
      by (simp add: abs_mult)
    also have "(\<bar>x\<bar> / pow2 q - of_int M) * pow2 q = \<bar>x\<bar> - of_int M * pow2 q"
      by (simp add: left_diff_distrib)
    finally show ?thesis .
  qed
  ultimately have e: "\<bar>\<bar>x\<bar> - of_int M * pow2 q\<bar> \<le> pow2 q / 2" by simp
  have "\<bar>r - x\<bar> = \<bar>\<bar>x\<bar> - of_int M * pow2 q\<bar>"
    using assms(2) by (cases "0 < x") (auto simp: r abs_if)
  with e show ?thesis by (simp add: q_def)
qed

subsection \<open>Operations on doubles\<close>

lemma int_to_float_small: "\<bar>n\<bar> < 2 ^ 53 \<Longrightarrow> int_to_float n = Inr (Finite (of_int n))"
  by (simp add: int_to_float_def rnd_of_int)

lemma truediv_2: "truediv x 2 = Inr (fquot x (Finite 2))"
  using int_to_float_small [of 2] by (simp add: truediv_def)

lemma truediv_length:
  assumes "0 < n" and "n < 2 ^ 53"
  shows "truediv x (int n) = Inr (fquot x (Finite (of_nat n)))"
proof -
  have "\<bar>int n\<bar> < 2 ^ 53" using assms(2) by simp
  from int_to_float_small [OF this] assms(1) show ?thesis
    by (simp add: truediv_def)
qed

lemma truediv_0: "truediv x 0 = Inl ZeroDivisionError"
  using int_to_float_small [of 0] by (simp add: truediv_def)

text \<open>What \<^verbatim>\<open>float\<close> returns is a double: adding it to zero gives it back.\<close>

lemma fadd_zero_rnd: "fadd (Finite 0) (rnd m) = rnd m"
proof (cases "rnd m")
  case (Finite a)
  then show ?thesis using rnd_idem [OF Finite] by simp
qed simp_all

lemma py_float_is_double:
  assumes "py_float s = Inr x"
  shows "fadd (Finite 0) x = x"
proof -
  from assms consider "x = PosInf" | "x = NegInf" | "x = NaN" | m where "x = rnd m"
    by (auto simp: py_float_def Let_def split: prod.splits if_splits option.splits)
  then show ?thesis
    by cases (simp_all add: fadd_zero_rnd)
qed

text \<open>
  \<^verbatim>\<open>round(x, 2)\<close> of a finite double: the double nearest to \<open>k / 100\<close>, where \<open>k\<close>
  is an integer nearest to \<open>100 x\<close>, the even one at a tie.
\<close>

lemma py_round2_finite:
  "\<exists>k. \<bar>v * 100 - of_int k\<bar> \<le> 1 / 2 \<and> (\<bar>v * 100 - of_int k\<bar> = 1 / 2 \<longrightarrow> even k)
       \<and> py_round2 (Finite v) = rnd (of_int k / 100)"
  using round_half_even_near [of "v * 100"] round_half_even_tie [of "v * 100"]
  by (auto simp: py_round2_def)

text \<open>
  Values of the interpreter: \<^verbatim>\<open>float('0.1')\<close>, the sum of ten times 0.1, which is
  0.9999999999999999, and roundings at and near a tie.
\<close>

lemma float_tenth: "py_float ''0.1'' = Inr (Finite (3602879701896397 / 36028797018963968))"
  by code_simp

lemma sum_ten_tenths:
  "py_sum (replicate 10 (Finite (3602879701896397 / 36028797018963968)))
     = Finite (9007199254740991 / 9007199254740992)"
  by code_simp

lemma round_examples:
  "py_float ''150.015'' = Inr (Finite (1319545894726533 / 8796093022208))"
  "py_round2 (Finite (1319545894726533 / 8796093022208)) = Finite (659750957130711 / 4398046511104)"
  "py_float ''150.01'' = Inr (Finite (659750957130711 / 4398046511104))"
  "Inr (py_round2 (Finite (1 / 8))) = py_float ''0.12''"
  "Inr (py_round2 (Finite (3 / 8))) = py_float ''0.38''"
  "py_float '' -1.25e-1 '' = Inr (Finite (- (1 / 8)))"
  by code_simp+

lemma float_special:
  "py_float ''nan'' = Inr NaN" "py_float ''-Infinity'' = Inr NegInf" "py_float ''inf'' = Inr PosInf"
  "py_float [CHR ''1'', CHR ''2'', CHR 0x1F] = Inl ValueError"
  "py_float [CHR ''1'', CHR ''2'', CHR 0xA0] = Inr (Finite 12)"
  "py_float ''1_000.5'' = Inr (Finite (2001 / 2))"
  "py_float ''Best offer'' = Inl ValueError"
  by code_simp+

subsection \<open>Words of a text\<close>

lemma py_split_Nil:
  assumes "dropWhile is_space s = []"
  shows "py_split s = []"
  by (subst py_split.simps) (simp only: assms list.case)

lemma py_split_unfold:
  assumes "dropWhile is_space s = c # cs"
  shows "py_split s = takeWhile (\<lambda>x. \<not> is_space x) (c # cs) # py_split (dropWhile (\<lambda>x. \<not> is_space x) cs)"
    and "\<not> is_space c"
    and "s = takeWhile is_space s @ takeWhile (\<lambda>x. \<not> is_space x) (c # cs) @ dropWhile (\<lambda>x. \<not> is_space x) cs"
proof -
  show "py_split s = takeWhile (\<lambda>x. \<not> is_space x) (c # cs) # py_split (dropWhile (\<lambda>x. \<not> is_space x) cs)"
    using assms by (subst py_split.simps) simp
  show nsp: "\<not> is_space c"
    using assms hd_dropWhile [of is_space s] by auto
  have "s = takeWhile is_space s @ (c # cs)"
    using assms takeWhile_dropWhile_id [of is_space s] by simp
  also have "c # cs = takeWhile (\<lambda>x. \<not> is_space x) (c # cs) @ dropWhile (\<lambda>x. \<not> is_space x) (c # cs)"
    by simp
  also have "dropWhile (\<lambda>x. \<not> is_space x) (c # cs) = dropWhile (\<lambda>x. \<not> is_space x) cs"
    using nsp by simp
  finally show "s = takeWhile is_space s @ takeWhile (\<lambda>x. \<not> is_space x) (c # cs) @ dropWhile (\<lambda>x. \<not> is_space x) cs" .
qed

text \<open>Every word that \<^const>\<open>py_split\<close> returns is a standalone token of the text.\<close>

lemma split_token_standalone: "t \<in> set (py_split s) \<Longrightarrow> standalone_token t s"
proof (induction s rule: py_split.induct)
  case (1 s)
  show ?case
  proof (cases "dropWhile is_space s")
    case Nil
    with "1.prems" show ?thesis by (simp add: py_split_Nil)
  next
    case (Cons c cs)
    let ?tok = "takeWhile (\<lambda>x. \<not> is_space x) (c # cs)"
    let ?rest = "dropWhile (\<lambda>x. \<not> is_space x) cs"
    note u = py_split_unfold [OF Cons]
    have rest_hd: "?rest = [] \<or> is_space (hd ?rest)"
      using hd_dropWhile [of "\<lambda>x. \<not> is_space x" cs] by auto
    from "1.prems" u(1) consider "t = ?tok" | "t \<in> set (py_split ?rest)" by auto
    then show ?thesis
    proof cases
      case 1
      have "t \<noteq> []" using 1 u(2) by simp
      moreover have "\<forall>c\<in>set t. \<not> is_space c"
        using 1 by (auto dest: set_takeWhileD)
      moreover have "takeWhile is_space s = [] \<or> is_space (last (takeWhile is_space s))"
        by (metis last_in_set set_takeWhileD)
      ultimately show ?thesis
        unfolding standalone_token_def using u(3) 1 rest_hd by blast
    next
      case 2
      then have "standalone_token t ?rest"
        using "1.IH" [OF Cons] by simp
      then obtain pre post where t: "t \<noteq> []" "\<forall>c\<in>set t. \<not> is_space c"
        and d: "?rest = pre @ t @ post" "pre = [] \<or> is_space (last pre)" "post = [] \<or> is_space (hd post)"
        unfolding standalone_token_def by blast
      have "pre \<noteq> []"
      proof
        assume "pre = []"
        with d(1) t(1) have "?rest \<noteq> []" "hd ?rest = hd t" by auto
        with rest_hd t show False by (metis hd_in_set)
      qed
      with d(2) have "is_space (last (takeWhile is_space s @ ?tok @ pre))" by simp
      moreover have "s = (takeWhile is_space s @ ?tok @ pre) @ t @ post"
        using u(3) d(1) by simp
      ultimately show ?thesis
        unfolding standalone_token_def using t d(3) by blast
    qed
  qed
qed


lemma split_token_sublist: "t \<in> set (py_split s) \<Longrightarrow> sublist t s"
  using split_token_standalone [of t s] unfolding standalone_token_def sublist_def by blast

subsection \<open>The listing validator\<close>




subsection \<open>The price bounds\<close>

lemma map_of_record_price:
  "map_of (record_price date v d) k =
     (if k = date then Some ((case map_of d date of Some ps \<Rightarrow> ps | None \<Rightarrow> []) @ [v]) else map_of d k)"
proof (cases "date \<in> fst ` set d")
  case True
  then obtain ps where "map_of d date = Some ps"
    by (metis map_of_eq_None_iff not_Some_eq)
  with True show ?thesis
    by (simp add: record_price_def update_conv')
next
  case False
  then have "map_of d date = None"
    by (simp add: map_of_eq_None_iff)
  with False show ?thesis
    by (simp add: record_price_def update_conv')
qed

lemma distinct_record_price:
  "distinct (map fst d) \<Longrightarrow> distinct (map fst (record_price date v d))"
  by (simp add: record_price_def Let_def distinct_update)

lemma set_update_cases:
  "(k', v') \<in> set (AList.update k v al) \<Longrightarrow> (k', v') = (k, v) \<or> (k', v') \<in> set al"
  by (induction al) (auto split: if_splits)

lemma bounds_update:
  assumes "prices_in_bounds al" and "\<forall>p\<in>set v. \<exists>x. p = Finite x \<and> 10 < x \<and> x < 900"
  shows "prices_in_bounds (AList.update k v al)"
  using assms unfolding prices_in_bounds_def by (auto dest!: set_update_cases)

lemma bounds_lookup:
  assumes "prices_in_bounds al" and "map_of al k = Some ps"
  shows "\<forall>p\<in>set ps. \<exists>x. p = Finite x \<and> 10 < x \<and> x < 900"
  using assms unfolding prices_in_bounds_def by (auto dest!: map_of_SomeD)

lemma bounds_record_price:
  assumes "prices_in_bounds d" and "\<exists>x. v = Finite x \<and> 10 < x \<and> x < 900"
  shows "prices_in_bounds (record_price date v d)"
proof -
  let ?d = "if date \<notin> fst ` set d then AList.update date [] d else d"
  have d1: "prices_in_bounds ?d"
    using assms(1) by (simp add: bounds_update)
  have "\<forall>p\<in>set ((case map_of ?d date of Some prices \<Rightarrow> prices | None \<Rightarrow> []) @ [v]).
          \<exists>x. p = Finite x \<and> 10 < x \<and> x < 900"
  proof (cases "map_of ?d date")
    case None
    then show ?thesis using assms(2) by simp
  next
    case (Some ps)
    from bounds_lookup [OF d1 Some] Some show ?thesis using assms(2) by simp
  qed
  with d1 show ?thesis
    unfolding record_price_def Let_def by (rule bounds_update)
qed

text \<open>
  The guard of line 61 holds for finite numbers strictly between 10 and 900 only:
  it fails for an infinity and for not-a-number.
\<close>

lemma guard_finite:
  assumes "flt (Finite 10) p" and "flt p (Finite 900)"
  shows "\<exists>x. p = Finite x \<and> 10 < x \<and> x < 900"
  using assms by (cases p) simp_all

lemma bounds_try_listing:
  assumes "prices_in_bounds d" and "try_listing kws item d = Inr d'"
  shows "prices_in_bounds d'"
proof (cases "d' = d")
  case True
  with assms(1) show ?thesis by simp
next
  case False
  with assms(2) obtain date v where "d' = record_price date v d"
    and "flt (Finite 10) v" and "flt v (Finite 900)"
    by (auto simp: try_listing_def split: sum.splits prod.splits if_splits)
  with assms(1) show ?thesis
    by (simp add: bounds_record_price guard_finite)
qed

lemma bounds_scrape_listings:
  assumes "prices_in_bounds d" and "scrape_listings kws items d = Inr d'"
  shows "prices_in_bounds d'"
  using assms
proof (induction items arbitrary: d)
  case Nil
  then show ?case by simp
next
  case (Cons item items)
  show ?case
  proof (cases "try_listing kws item d")
    case (Inl e)
    with Cons.prems(2) have "scrape_listings kws items d = Inr d'"
      by (simp split: if_splits)
    with Cons.IH Cons.prems(1) show ?thesis by blast
  next
    case (Inr d1)
    with Cons.prems(2) have "scrape_listings kws items d1 = Inr d'" by simp
    moreover have "prices_in_bounds d1"
      using bounds_try_listing Cons.prems(1) Inr by blast
    ultimately show ?thesis using Cons.IH by blast
  qed
qed

lemma bounds_scrape_pages:
  assumes "prices_in_bounds d" and "scrape_pages web kws pages d = Inr d'"
  shows "prices_in_bounds d'"
  using assms
proof (induction pages arbitrary: d)
  case Nil
  then show ?case by simp
next
  case (Cons p pages)
  show ?case
  proof (cases "fetch_listings web kws p")
    case (Inl e)
    with Cons.prems(2) show ?thesis by simp
  next
    case (Inr sect)
    show ?thesis
    proof (cases sect)
      case None
      with Inr Cons.prems(2) have "scrape_pages web kws pages d = Inr d'" by simp
      with Cons.IH Cons.prems(1) show ?thesis by blast
    next
      case (Some listings)
      with Inr Cons.prems(2) obtain d1 where
        d1: "scrape_listings kws listings d = Inr d1" "scrape_pages web kws pages d1 = Inr d'"
        by (auto split: sum.splits)
      then have "prices_in_bounds d1"
        using bounds_scrape_listings Cons.prems(1) by blast
      with d1(2) Cons.IH show ?thesis by blast
    qed
  qed
qed

text \<open>
  Claim C6. Every price that the run of a term records in the dictionary of the
  term, from which the averages are computed, is a finite number strictly between
  10 and 900.
\<close>

theorem recorded_prices_within_bounds:
  assumes "scrape_ebay_for_term web search_term [] = Inr month_price_dict"
      and "(date, prices) \<in> set month_price_dict" and "p \<in> set prices"
  shows "\<exists>v. p = Finite v \<and> 10 < v \<and> v < 900"
proof -
  have "prices_in_bounds []" by (simp add: prices_in_bounds_def)
  then have "prices_in_bounds month_price_dict"
    using assms(1) unfolding scrape_ebay_for_term_def by (rule bounds_scrape_pages)
  with assms(2,3) show ?thesis
    unfolding prices_in_bounds_def by blast
qed

text \<open>
  On the service with the price texts \<^verbatim>\<open>$10.005\<close>, \<^verbatim>\<open>nan\<close>, \<^verbatim>\<open>inf\<close>, \<^verbatim>\<open>$10.00\<close>,
  \<^verbatim>\<open>$900.00\<close> and \<^verbatim>\<open>$899.99\<close>, the run of the term ends normally. It records the
  first price, which is rounded to 10.01, and the last one; not-a-number, the
  infinity and the two bounds are not recorded.
\<close>

theorem recorded_prices_within_bounds_example:
  "scrape_ebay_for_term bounds_web ''Ryzen 5'' [] =
     Inr [(''Jan 5, 2024'',
           [Finite (5635129033747333 / 562949953421312), Finite (3958197879528489 / 4398046511104)])]
   \<and> py_float ''10.01'' = Inr (Finite (5635129033747333 / 562949953421312))
   \<and> py_float ''899.99'' = Inr (Finite (3958197879528489 / 4398046511104))
   \<and> (10::rat) < 3958197879528489 / 4398046511104
   \<and> (3958197879528489 / 4398046511104 :: rat) < 900"
proof -
  have a: "scrape_ebay_for_term bounds_web ''Ryzen 5'' [] =
     Inr [(''Jan 5, 2024'',
           [Finite (5635129033747333 / 562949953421312), Finite (3958197879528489 / 4398046511104)])]"
    by code_simp
  have b: "py_float ''10.01'' = Inr (Finite (5635129033747333 / 562949953421312))"
    "py_float ''899.99'' = Inr (Finite (3958197879528489 / 4398046511104))"
    by code_simp+
  from recorded_prices_within_bounds
      [OF a, of "''Jan 5, 2024''"
          "[Finite (5635129033747333 / 562949953421312), Finite (3958197879528489 / 4398046511104)]"
          "Finite (3958197879528489 / 4398046511104)"]
  have "(10::rat) < 3958197879528489 / 4398046511104 \<and> (3958197879528489 / 4398046511104 :: rat) < 900"
    by simp
  with a b show ?thesis by simp
qed

subsection \<open>The price normalizer\<close>

lemma sum_floats_all:
  "list_all2 (\<lambda>num x. py_float num = Inr x) (filter (\<lambda>num. num \<noteq> ''to'') nums) xs \<Longrightarrow>
   sum_floats acc nums = Inr (foldl fadd acc xs)"
proof (induction nums arbitrary: acc xs)
  case Nil
  then show ?case by simp
next
  case (Cons num nums)
  show ?case
  proof (cases "num = ''to''")
    case True
    with Cons show ?thesis by simp
  next
    case False
    with Cons.prems obtain x xs' where xs: "xs = x # xs'" "py_float num = Inr x"
      "list_all2 (\<lambda>num x. py_float num = Inr x) (filter (\<lambda>num. num \<noteq> ''to'') nums) xs'"
      by (auto simp: list_all2_Cons1)
    from Cons.IH [OF xs(3), of "fadd acc x"] xs(1,2) False show ?thesis
      by simp
  qed
qed

lemma py_float_to: "py_float ''to'' = Inl ValueError"
  by code_simp

text \<open>
  The result of the range branch, from the sum \<open>t\<close> of the tokens: it is the
  rounding of half the sum, and when the sum \<open>s\<close> and its half \<open>v\<close> are finite it is
  the double nearest to \<open>k / 100\<close> for an integer \<open>k\<close> nearest to \<open>100 v\<close>.
\<close>

lemma range_branch:
  assumes "sublist ''to'' (py_replace '','' [] (py_replace ''$'' [] raw))"
      and "sum_floats (Finite 0) (py_split (py_replace '','' [] (py_replace ''$'' [] raw))) = Inr t"
  shows "process_price raw = Inr (py_round2 (fquot t (Finite 2)))"
    and "t = Finite s \<Longrightarrow> rnd (s / 2) = Finite v \<Longrightarrow>
         \<exists>k. \<bar>v * 100 - of_int k\<bar> \<le> 1 / 2 \<and> (\<bar>v * 100 - of_int k\<bar> = 1 / 2 \<longrightarrow> even k)
              \<and> process_price raw = Inr (rnd (of_int k / 100))"
proof -
  show p: "process_price raw = Inr (py_round2 (fquot t (Finite 2)))"
    using assms by (simp add: process_price_def truediv_2)
  assume "t = Finite s" and "rnd (s / 2) = Finite v"
  then have "fquot t (Finite 2) = Finite v" by simp
  with p py_round2_finite [of v] show
    "\<exists>k. \<bar>v * 100 - of_int k\<bar> \<le> 1 / 2 \<and> (\<bar>v * 100 - of_int k\<bar> = 1 / 2 \<longrightarrow> even k)
         \<and> process_price raw = Inr (rnd (of_int k / 100))"
    by auto
qed

text \<open>
  Claim C4. A price text whose words, once the dollar signs and the commas are
  removed, are a number, the word \<^verbatim>\<open>to\<close> and a number, is normalized to the mean
  of the two numbers rounded to two decimals, computed in double precision: the
  sum of the two doubles is halved and the half is rounded. When the endpoints
  \<open>u\<close> and \<open>w\<close>, the double \<open>s\<close> nearest to \<open>u + w\<close> and the double \<open>v\<close> nearest to
  \<open>s / 2\<close> are finite, the result is the double nearest to \<open>k / 100\<close>, where \<open>k\<close> is
  an integer nearest to \<open>100 v\<close>, the even one at a tie.
\<close>

theorem range_price_is_mean_of_endpoints:
  assumes "py_split (py_replace '','' [] (py_replace ''$'' [] raw)) = [a, ''to'', b]"
      and "py_float a = Inr x" and "py_float b = Inr y"
  shows "process_price raw = Inr (py_round2 (fquot (fadd x y) (Finite 2)))
         \<and> (\<forall>u w s v. x = Finite u \<and> y = Finite w \<and> rnd (u + w) = Finite s \<and> rnd (s / 2) = Finite v \<longrightarrow>
               (\<exists>k. \<bar>v * 100 - of_int k\<bar> \<le> 1 / 2 \<and> (\<bar>v * 100 - of_int k\<bar> = 1 / 2 \<longrightarrow> even k)
                    \<and> process_price raw = Inr (rnd (of_int k / 100))))"
proof -
  let ?price = "py_replace '','' [] (py_replace ''$'' [] raw)"
  have "''to'' \<in> set (py_split ?price)" using assms(1) by simp
  then have sub: "sublist ''to'' ?price" by (rule split_token_sublist)
  have ne: "a \<noteq> ''to''" "b \<noteq> ''to''"
    using assms(2,3) py_float_to by auto
  have "sum_floats (Finite 0) (py_split ?price) = Inr (fadd (fadd (Finite 0) x) y)"
    using assms ne by simp
  then have t: "sum_floats (Finite 0) (py_split ?price) = Inr (fadd x y)"
    using py_float_is_double [OF assms(2)] by simp
  note r = range_branch [OF sub t]
  show ?thesis
  proof (intro conjI allI impI)
    show "process_price raw = Inr (py_round2 (fquot (fadd x y) (Finite 2)))" by (rule r(1))
  next
    fix u w s v
    assume h: "x = Finite u \<and> y = Finite w \<and> rnd (u + w) = Finite s \<and> rnd (s / 2) = Finite v"
    then have "fadd x y = Finite s" by simp
    from r(2) [OF this] h show
      "\<exists>k. \<bar>v * 100 - of_int k\<bar> \<le> 1 / 2 \<and> (\<bar>v * 100 - of_int k\<bar> = 1 / 2 \<longrightarrow> even k)
           \<and> process_price raw = Inr (rnd (of_int k / 100))"
      by simp
  qed
qed

text \<open>
  The example of the specification: \<^verbatim>\<open>$10.00 to $20.00\<close> is normalized to 15. The
  range \<^verbatim>\<open>$10.05 to $10.06\<close> is normalized to 10.05: the sum of the two doubles is
  the double 20.11, whose half is below 10.055.
\<close>

theorem range_price_example:
  "py_split (py_replace '','' [] (py_replace ''$'' [] ''$10.00 to $20.00'')) = [''10.00'', ''to'', ''20.00'']
   \<and> py_float ''10.00'' = Inr (Finite 10) \<and> py_float ''20.00'' = Inr (Finite 20)
   \<and> process_price ''$10.00 to $20.00'' = Inr (Finite 15)
   \<and> py_split (py_replace '','' [] (py_replace ''$'' [] ''$10.05 to $10.06'')) = [''10.05'', ''to'', ''10.06'']
   \<and> py_float ''10.05'' = Inr (Finite (2828823515942093 / 281474976710656))
   \<and> py_float ''10.06'' = Inr (Finite (5663276531418399 / 562949953421312))
   \<and> rnd (2828823515942093 / 281474976710656 + 5663276531418399 / 562949953421312)
       = Finite (1415115445412823 / 70368744177664)
   \<and> rnd (1415115445412823 / 70368744177664 / 2) = Finite (1415115445412823 / 140737488355328)
   \<and> process_price ''$10.05 to $10.06'' = Inr (Finite (2828823515942093 / 281474976710656))"
proof -
  have a: "py_split (py_replace '','' [] (py_replace ''$'' [] ''$10.00 to $20.00'')) = [''10.00'', ''to'', ''20.00'']"
    by code_simp
  have b: "py_float ''10.00'' = Inr (Finite 10)" "py_float ''20.00'' = Inr (Finite 20)"
    by code_simp+
  have c: "py_round2 (fquot (fadd (Finite 10) (Finite 20)) (Finite 2)) = Finite 15"
    by code_simp
  have a': "py_split (py_replace '','' [] (py_replace ''$'' [] ''$10.05 to $10.06'')) = [''10.05'', ''to'', ''10.06'']"
    by code_simp
  have b': "py_float ''10.05'' = Inr (Finite (2828823515942093 / 281474976710656))"
    "py_float ''10.06'' = Inr (Finite (5663276531418399 / 562949953421312))"
    by code_simp+
  have s: "rnd (2828823515942093 / 281474976710656 + 5663276531418399 / 562949953421312)
             = Finite (1415115445412823 / 70368744177664)"
    by code_simp
  have h: "rnd (1415115445412823 / 70368744177664 / 2) = Finite (1415115445412823 / 140737488355328)"
    by code_simp
  have c': "py_round2 (Finite (1415115445412823 / 140737488355328))
              = Finite (2828823515942093 / 281474976710656)"
    by code_simp
  from range_price_is_mean_of_endpoints [OF a b] c
  have 1: "process_price ''$10.00 to $20.00'' = Inr (Finite 15)" by simp
  from range_price_is_mean_of_endpoints [OF a' b'] s h c'
  have 2: "process_price ''$10.05 to $10.06'' = Inr (Finite (2828823515942093 / 281474976710656))"
    by simp
  from a b 1 a' b' s h 2 show ?thesis by simp
qed

text \<open>
  Claim C10. When the price text, once the dollar signs and the commas are
  removed, contains \<^verbatim>\<open>to\<close>, the normalizer returns half the sum of all its words
  other than \<^verbatim>\<open>to\<close>, rounded to two decimals, however many words there are. The
  words are added from left to right in double precision. When the sum \<open>s\<close> and the
  double \<open>v\<close> nearest to \<open>s / 2\<close> are finite, the result is the double nearest to
  \<open>k / 100\<close>, where \<open>k\<close> is an integer nearest to \<open>100 v\<close>, the even one at a tie.
\<close>

theorem range_price_is_half_sum_of_all_words:
  assumes "price = py_replace '','' [] (py_replace ''$'' [] raw)"
      and "sublist ''to'' price"
      and "list_all2 (\<lambda>num x. py_float num = Inr x) (filter (\<lambda>num. num \<noteq> ''to'') (py_split price)) xs"
  shows "process_price raw = Inr (py_round2 (fquot (py_sum xs) (Finite 2)))
         \<and> (\<forall>s v. py_sum xs = Finite s \<and> rnd (s / 2) = Finite v \<longrightarrow>
               (\<exists>k. \<bar>v * 100 - of_int k\<bar> \<le> 1 / 2 \<and> (\<bar>v * 100 - of_int k\<bar> = 1 / 2 \<longrightarrow> even k)
                    \<and> process_price raw = Inr (rnd (of_int k / 100))))"
proof -
  have sub: "sublist ''to'' (py_replace '','' [] (py_replace ''$'' [] raw))"
    using assms(1,2) by simp
  have t: "sum_floats (Finite 0) (py_split (py_replace '','' [] (py_replace ''$'' [] raw))) = Inr (py_sum xs)"
    using sum_floats_all [OF assms(3), of "Finite 0"] by (simp add: py_sum_def assms(1))
  note r = range_branch [OF sub t]
  show ?thesis
  proof (intro conjI allI impI)
    show "process_price raw = Inr (py_round2 (fquot (py_sum xs) (Finite 2)))" by (rule r(1))
  next
    fix s v
    assume h: "py_sum xs = Finite s \<and> rnd (s / 2) = Finite v"
    then have "py_sum xs = Finite s" and "rnd (s / 2) = Finite v" by simp_all
    then show
      "\<exists>k. \<bar>v * 100 - of_int k\<bar> \<le> 1 / 2 \<and> (\<bar>v * 100 - of_int k\<bar> = 1 / 2 \<longrightarrow> even k)
           \<and> process_price raw = Inr (rnd (of_int k / 100))"
      by (rule r(2))
  qed
qed

text \<open>
  A text with three prices, 10, 20 and 0.25, is normalized to half the sum of the
  three, 15.125, rounded to 15.12 (the tie goes to the even digit), and not to the
  mean of two of them.
\<close>

theorem three_prices_example:
  "sublist ''to'' (py_replace '','' [] (py_replace ''$'' [] ''$10 to $20 to $0.25''))
   \<and> filter (\<lambda>num. num \<noteq> ''to'')
        (py_split (py_replace '','' [] (py_replace ''$'' [] ''$10 to $20 to $0.25'')))
       = [''10'', ''20'', ''0.25'']
   \<and> py_float ''10'' = Inr (Finite 10) \<and> py_float ''20'' = Inr (Finite 20)
   \<and> py_float ''0.25'' = Inr (Finite (1 / 4))
   \<and> py_sum [Finite 10, Finite 20, Finite (1 / 4)] = Finite (121 / 4)
   \<and> rnd (121 / 4 / 2) = Finite (121 / 8)
   \<and> process_price ''$10 to $20 to $0.25'' = Inr (Finite (8511803295730237 / 562949953421312))
   \<and> py_float ''15.12'' = Inr (Finite (8511803295730237 / 562949953421312))"
proof -
  have a: "sublist ''to'' (py_replace '','' [] (py_replace ''$'' [] ''$10 to $20 to $0.25''))"
    by code_simp
  have b: "filter (\<lambda>num. num \<noteq> ''to'')
             (py_split (py_replace '','' [] (py_replace ''$'' [] ''$10 to $20 to $0.25'')))
           = [''10'', ''20'', ''0.25'']"
    by code_simp
  have c: "py_float ''10'' = Inr (Finite 10)" "py_float ''20'' = Inr (Finite 20)"
    "py_float ''0.25'' = Inr (Finite (1 / 4))"
    by code_simp+
  have s: "py_sum [Finite 10, Finite 20, Finite (1 / 4)] = Finite (121 / 4)"
    by code_simp
  have h: "rnd (121 / 4 / 2) = Finite (121 / 8)"
    by code_simp
  have d: "py_round2 (Finite (121 / 8)) = Finite (8511803295730237 / 562949953421312)"
    by code_simp
  have e: "py_float ''15.12'' = Inr (Finite (8511803295730237 / 562949953421312))"
    by code_simp
  have "list_all2 (\<lambda>num x. py_float num = Inr x)
          (filter (\<lambda>num. num \<noteq> ''to'')
             (py_split (py_replace '','' [] (py_replace ''$'' [] ''$10 to $20 to $0.25''))))
          [Finite 10, Finite 20, Finite (1 / 4)]"
    using b c by simp
  from range_price_is_half_sum_of_all_words [OF refl a this] s h d
  have "process_price ''$10 to $20 to $0.25'' = Inr (Finite (8511803295730237 / 562949953421312))"
    by simp
  with a b c s h e show ?thesis by simp
qed

subsection \<open>The aggregator\<close>

lemma map_of_feed:
  "map_of (feed obs d) k =
     (case map_of d k of
        None \<Rightarrow> if prices_on k obs = [] then None else Some (prices_on k obs)
      | Some qs \<Rightarrow> Some (qs @ prices_on k obs))"
proof (induction obs arbitrary: d)
  case Nil
  then show ?case by (simp add: feed_def prices_on_def split: option.splits)
next
  case (Cons ob obs)
  obtain date v where ob: "ob = (date, v)" by (cases ob)
  have "feed (ob # obs) d = feed obs (record_price date v d)"
    by (simp add: feed_def ob)
  then show ?case
    by (simp add: Cons.IH map_of_record_price ob prices_on_def split: option.splits)
qed

lemma distinct_feed: "distinct (map fst d) \<Longrightarrow> distinct (map fst (feed obs d))"
proof (induction obs arbitrary: d)
  case Nil
  then show ?case by (simp add: feed_def)
next
  case (Cons ob obs)
  obtain date v where ob: "ob = (date, v)" by (cases ob)
  have "feed (ob # obs) d = feed obs (record_price date v d)"
    by (simp add: feed_def ob)
  with Cons show ?case by (simp add: distinct_record_price)
qed

lemma feed_lookup:
  "map_of (feed obs []) k = (if prices_on k obs = [] then None else Some (prices_on k obs))"
  by (simp add: map_of_feed)

text \<open>The list of a date in the dictionary holds the prices observed on the date, and is not empty.\<close>

lemma feed_entry:
  assumes "(date, prices) \<in> set (feed obs [])"
  shows "prices = prices_on date obs" and "prices \<noteq> []"
proof -
  have "distinct (map fst (feed obs []))" by (simp add: distinct_feed)
  with assms have "map_of (feed obs []) date = Some prices" by simp
  with feed_lookup [of obs date] show "prices = prices_on date obs" and "prices \<noteq> []"
    by (simp_all split: if_splits)
qed

lemma length_prices_on: "length (prices_on date obs) \<le> length obs"
  by (simp add: prices_on_def)

text \<open>
  The averages of a dictionary whose lists are not empty, and shorter than \<open>2\<^sup>5\<^sup>3\<close> so
  that the conversion of their lengths is exact: no division raises.
\<close>

lemma daily_averages_nonempty:
  "\<forall>(date, prices)\<in>set d. prices \<noteq> [] \<and> length prices < 2 ^ 53 \<Longrightarrow>
   daily_averages d = Inr (map (\<lambda>(date, prices). (date, py_round2 (float_mean prices))) d)"
  by (induction d) (auto simp: float_mean_def truediv_length)

lemma daily_averages_feed:
  assumes "length obs < 2 ^ 53"
  shows "daily_averages (feed obs []) =
           Inr (map (\<lambda>(date, prices). (date, py_round2 (float_mean prices))) (feed obs []))"
proof (rule daily_averages_nonempty, clarify)
  fix date prices
  assume e: "(date, prices) \<in> set (feed obs [])"
  note f = feed_entry [OF e]
  have "length prices \<le> length obs" unfolding f(1) by (rule length_prices_on)
  with assms have "length prices < 2 ^ 53" by simp
  with f(2) show "prices \<noteq> [] \<and> length prices < 2 ^ 53" by simp
qed

text \<open>
  Claim C7, as amended. For a sequence of fewer than \<open>2\<^sup>5\<^sup>3\<close> observations,
  finalization does not fail, and it gives a date an average exactly when the date
  has an observation. The average is the mean of all prices observed on the date,
  rounded to two decimals, computed in double precision: the prices are added from
  left to right, the sum is divided by their number and the quotient is rounded.
  When the sum \<open>s\<close> and the double \<open>v\<close> nearest to the quotient are finite, the
  average is the double nearest to \<open>k / 100\<close>, where \<open>k\<close> is an integer nearest to
  \<open>100 v\<close>, the even one at a tie. With no observation the result is the empty
  mapping.
\<close>

theorem finalize_is_rounded_mean:
  assumes "length observations < 2 ^ 53"
  shows "\<exists>avgs. finalize observations = Inr avgs \<and>
     (\<forall>date. map_of avgs date =
        (if prices_on date observations = [] then None
         else Some (py_round2 (float_mean (prices_on date observations))))) \<and>
     (\<forall>date s v.
        prices_on date observations \<noteq> [] \<and> py_sum (prices_on date observations) = Finite s
        \<and> rnd (s / of_nat (length (prices_on date observations))) = Finite v \<longrightarrow>
        (\<exists>k. \<bar>v * 100 - of_int k\<bar> \<le> 1 / 2 \<and> (\<bar>v * 100 - of_int k\<bar> = 1 / 2 \<longrightarrow> even k)
             \<and> map_of avgs date = Some (rnd (of_int k / 100))))"
proof -
  let ?d = "feed observations []"
  let ?avgs = "map (\<lambda>(date, prices). (date, py_round2 (float_mean prices))) ?d"
  have fin: "finalize observations = Inr ?avgs"
    unfolding finalize_def using assms by (rule daily_averages_feed)
  have look: "map_of ?avgs date =
          (if prices_on date observations = [] then None
           else Some (py_round2 (float_mean (prices_on date observations))))" for date
    by (simp add: map_of_map feed_lookup)
  have rounded: "\<exists>k. \<bar>v * 100 - of_int k\<bar> \<le> 1 / 2 \<and> (\<bar>v * 100 - of_int k\<bar> = 1 / 2 \<longrightarrow> even k)
             \<and> map_of ?avgs date = Some (rnd (of_int k / 100))"
    if h: "prices_on date observations \<noteq> [] \<and> py_sum (prices_on date observations) = Finite s
        \<and> rnd (s / of_nat (length (prices_on date observations))) = Finite v" for date s v
  proof -
    from h have "float_mean (prices_on date observations) = Finite v"
      by (simp add: float_mean_def)
    with h look [of date] py_round2_finite [of v] show ?thesis by auto
  qed
  from fin look rounded show ?thesis by blast
qed

text \<open>
  The example of the specification, the term without observations, and a date
  with the prices 100, 101 and 101, whose mean 100.666... is rounded up to 100.67.
\<close>

theorem finalize_example:
  "finalize [(''2024-01-01'', Finite 100), (''2024-01-01'', Finite 200), (''2024-01-02'', Finite 50)]
     = Inr [(''2024-01-01'', Finite 150), (''2024-01-02'', Finite 50)]
   \<and> finalize [] = Inr []
   \<and> finalize [(''2024-01-03'', Finite 100), (''2024-01-03'', Finite 101), (''2024-01-03'', Finite 101)]
       = Inr [(''2024-01-03'', Finite (7084021476365435 / 70368744177664))]
   \<and> py_float ''100.67'' = Inr (Finite (7084021476365435 / 70368744177664))
   \<and> prices_on ''2024-01-03''
        [(''2024-01-03'', Finite 100), (''2024-01-03'', Finite 101), (''2024-01-03'', Finite 101)]
       = [Finite 100, Finite 101, Finite 101]
   \<and> py_round2 (float_mean [Finite 100, Finite 101, Finite 101])
       = Finite (7084021476365435 / 70368744177664)"
proof -
  let ?obs = "[(''2024-01-03'', Finite 100), (''2024-01-03'', Finite 101), (''2024-01-03'', Finite 101)]"
  have a: "finalize [(''2024-01-01'', Finite 100), (''2024-01-01'', Finite 200), (''2024-01-02'', Finite 50)]
     = Inr [(''2024-01-01'', Finite 150), (''2024-01-02'', Finite 50)]"
    by code_simp
  have b: "finalize [] = Inr []"
    by code_simp
  have c: "finalize ?obs = Inr [(''2024-01-03'', Finite (7084021476365435 / 70368744177664))]"
    by code_simp
  have d: "py_float ''100.67'' = Inr (Finite (7084021476365435 / 70368744177664))"
    by code_simp
  have e: "prices_on ''2024-01-03'' ?obs = [Finite 100, Finite 101, Finite 101]"
    by code_simp
  have l: "length ?obs < 2 ^ 53" by simp
  from finalize_is_rounded_mean [OF l] obtain avgs where
    avgs: "finalize ?obs = Inr avgs"
    and look: "\<And>date. map_of avgs date =
          (if prices_on date ?obs = [] then None
           else Some (py_round2 (float_mean (prices_on date ?obs))))"
    by blast
  from avgs c have "avgs = [(''2024-01-03'', Finite (7084021476365435 / 70368744177664))]" by simp
  with look [of "''2024-01-03''"] e
  have "py_round2 (float_mean [Finite 100, Finite 101, Finite 101])
          = Finite (7084021476365435 / 70368744177664)"
    by simp
  with a b c d e show ?thesis by simp
qed

text \<open>
  The average is not the arithmetic mean itself: the prices 100, 100 and 101 of
  one date have the mean 301/3, which is 100.33333333333333 in double precision,
  and the average of the date is 100.33.
\<close>

theorem finalize_rounds_the_mean:
  "finalize [(''2024-01-01'', Finite 100), (''2024-01-01'', Finite 100), (''2024-01-01'', Finite 101)]
     = Inr [(''2024-01-01'', Finite (7060096103345029 / 70368744177664))]
   \<and> py_float ''100.33'' = Inr (Finite (7060096103345029 / 70368744177664))
   \<and> float_mean [Finite 100, Finite 100, Finite 101] = Finite (7060330665825621 / 70368744177664)
   \<and> (7060096103345029 / 70368744177664 :: rat) \<noteq> 7060330665825621 / 70368744177664
   \<and> (7060096103345029 / 70368744177664 :: rat) \<noteq> (100 + 100 + 101) / 3"
  by code_simp

text \<open>
  The dictionary that the run of a term returns is the aggregator fed some sequence
  of observations, so the averages of lines 92 to 95 are its finalization.
\<close>

lemma feed_snoc: "feed (obs @ [(date, v)]) d = record_price date v (feed obs d)"
  by (simp add: feed_def)

lemma try_listing_feed:
  assumes "try_listing kws item (feed obs []) = Inr d'"
  shows "\<exists>obs'. d' = feed obs' []"
proof (cases "d' = feed obs []")
  case True
  then show ?thesis by blast
next
  case False
  with assms obtain date v where "d' = record_price date v (feed obs [])"
    by (auto simp: try_listing_def split: sum.splits prod.splits if_splits)
  then have "d' = feed (obs @ [(date, v)]) []" by (simp add: feed_snoc)
  then show ?thesis by blast
qed

lemma scrape_listings_feed:
  "scrape_listings kws items (feed obs []) = Inr d' \<Longrightarrow> \<exists>obs'. d' = feed obs' []"
proof (induction items arbitrary: obs)
  case Nil
  then show ?case by auto
next
  case (Cons item items)
  show ?case
  proof (cases "try_listing kws item (feed obs [])")
    case (Inl e)
    with Cons.prems have "scrape_listings kws items (feed obs []) = Inr d'"
      by (simp split: if_splits)
    then show ?thesis by (rule Cons.IH)
  next
    case (Inr d1)
    then obtain obs1 where "d1 = feed obs1 []" using try_listing_feed by blast
    with Inr Cons.prems have "scrape_listings kws items (feed obs1 []) = Inr d'" by simp
    then show ?thesis by (rule Cons.IH)
  qed
qed

lemma scrape_pages_feed:
  "scrape_pages web kws pages (feed obs []) = Inr d' \<Longrightarrow> \<exists>obs'. d' = feed obs' []"
proof (induction pages arbitrary: obs)
  case Nil
  then show ?case by auto
next
  case (Cons p pages)
  show ?case
  proof (cases "fetch_listings web kws p")
    case (Inl e)
    with Cons.prems show ?thesis by simp
  next
    case (Inr sect)
    show ?thesis
    proof (cases sect)
      case None
      with Inr Cons.prems have "scrape_pages web kws pages (feed obs []) = Inr d'" by simp
      then show ?thesis by (rule Cons.IH)
    next
      case (Some listings)
      with Inr Cons.prems obtain d1 where
        d1: "scrape_listings kws listings (feed obs []) = Inr d1" "scrape_pages web kws pages d1 = Inr d'"
        by (auto split: sum.splits)
      from d1(1) obtain obs1 where "d1 = feed obs1 []" using scrape_listings_feed by blast
      with d1(2) have "scrape_pages web kws pages (feed obs1 []) = Inr d'" by simp
      then show ?thesis by (rule Cons.IH)
    qed
  qed
qed

lemma term_averages_are_finalization:
  assumes "scrape_ebay_for_term web search_term [] = Inr month_price_dict"
  shows "\<exists>obs. month_price_dict = feed obs [] \<and> daily_averages month_price_dict = finalize obs"
proof -
  have "feed [] [] = ([] :: price_dict)" by (simp add: feed_def)
  with assms have "scrape_pages web (py_split (py_lower search_term)) [1..<14] (feed [] []) = Inr month_price_dict"
    by (simp add: scrape_ebay_for_term_def)
  then obtain obs where "month_price_dict = feed obs []"
    using scrape_pages_feed by blast
  then show ?thesis
    by (auto simp: finalize_def)
qed

subsection \<open>The columns of the table\<close>

text \<open>
  Claim C3, as amended. The date columns of the table are exactly the date texts
  that occur in the averages of some term, each once, in ascending order of the
  texts: the order of strings, which compares character by character.
\<close>

theorem all_dates_sorted_union:
  "set (all_dates summary_data) = (\<Union>(search_term, avgs)\<in>set summary_data. fst ` set avgs)
   \<and> distinct (all_dates summary_data)
   \<and> sorted (all_dates summary_data)"
proof -
  let ?dates = "concat (map (\<lambda>(search_term, avgs). map fst avgs) summary_data)"
  have "set (all_dates summary_data) = set ?dates"
    unfolding all_dates_def by (rule set_sorted_list_of_set) (rule finite_set)
  also have "\<dots> = (\<Union>(search_term, avgs)\<in>set summary_data. fst ` set avgs)"
    by auto
  finally have "set (all_dates summary_data) = (\<Union>(search_term, avgs)\<in>set summary_data. fst ` set avgs)" .
  moreover have "distinct (all_dates summary_data)" "sorted (all_dates summary_data)"
    unfolding all_dates_def by simp_all
  ultimately show ?thesis by simp
qed

theorem all_dates_example:
  "all_dates [(''A'', [(''2024-01-02'', Finite 20), (''2024-01-01'', Finite 10)]), (''B'', [(''2024-01-02'', Finite 20)])]
     = [''2024-01-01'', ''2024-01-02'']
   \<and> sorted [''2024-01-01'', ''2024-01-02'']"
proof -
  let ?s = "[(''A'', [(''2024-01-02'', Finite 20), (''2024-01-01'', Finite 10)]), (''B'', [(''2024-01-02'', Finite 20)])]"
  have "all_dates ?s = [''2024-01-01'', ''2024-01-02'']"
    by code_simp
  with all_dates_sorted_union [of ?s] show ?thesis by simp
qed

text \<open>
  The order of the texts is not the chronological order. On the example service
  the term has sales on Jan 5, 2024 and on Feb 1, 2024, and the table that the run
  writes has the column of February before the column of January.
\<close>

theorem columns_not_chronological:
  "written (main ryzen_web [input_file \<mapsto> [[''Ryzen 5'']]]) =
     [(''Average_Prices_By_Day.csv'',
       [[Str ''CPU Name'', Str ''Feb 1, 2024'', Str ''Jan 5, 2024''],
        [Str ''Ryzen 5'', Num (Finite 150), Num (Finite 175)]])]
   \<and> all_dates [(''Ryzen 5'', [(''Jan 5, 2024'', Finite 175), (''Feb 1, 2024'', Finite 150)])]
       = [''Feb 1, 2024'', ''Jan 5, 2024'']
   \<and> calendar_date ''Feb 1, 2024'' = Some (2024, 2, 1)
   \<and> calendar_date ''Jan 5, 2024'' = Some (2024, 1, 5)
   \<and> \<not> chronological (all_dates [(''Ryzen 5'', [(''Jan 5, 2024'', Finite 175), (''Feb 1, 2024'', Finite 150)])])"
  by code_simp

subsection \<open>Pages and fetch failures\<close>

lemma scrape_pages_append:
  "scrape_pages web kws (ps @ qs) d =
     (case scrape_pages web kws ps d of Inl e \<Rightarrow> Inl e | Inr d' \<Rightarrow> scrape_pages web kws qs d')"
  by (induction ps arbitrary: d) (auto split: sum.splits option.splits)

lemma pages_split:
  assumes "1 \<le> p" and "p \<le> 13"
  shows "[1..<14] = [1..<p] @ p # [Suc p..<14]"
proof -
  have "[1..<14] = [1..<p] @ [p..<14]"
    using assms upt_add_eq_append [of 1 p "14 - p"] by simp
  also have "[p..<14] = p # [Suc p..<14]"
    using assms by (simp add: upt_conv_Cons)
  finally show ?thesis .
qed

lemma fetch_absent:
  "web (search_url kws p) = Document None \<Longrightarrow> fetch_listings web kws p = Inr None"
  by (simp add: fetch_listings_def)

text \<open>A term none of whose pages has the results container ends with its dictionary unchanged.\<close>

lemma scrape_pages_all_absent:
  "\<forall>p\<in>set pages. web (search_url kws p) = Document None \<Longrightarrow> scrape_pages web kws pages d = Inr d"
  by (induction pages) (auto simp: fetch_absent)

text \<open>
  Claim C9. When the response for one of the 13 pages of a term has no results
  container, fetching the page returns no section and raises nothing, and the run
  of the term is the run over the other 12 pages, in order: the page contributes
  no observation and the pages after it are still processed.
\<close>

theorem absent_container_page_is_skipped:
  assumes "1 \<le> p" and "p \<le> 13"
      and "web (search_url (py_split (py_lower search_term)) p) = Document None"
  shows "fetch_listings web (py_split (py_lower search_term)) p = Inr None
         \<and> scrape_ebay_for_term web search_term d =
             scrape_pages web (py_split (py_lower search_term)) ([1..<p] @ [Suc p..<14]) d"
proof -
  let ?kws = "py_split (py_lower search_term)"
  have f: "fetch_listings web ?kws p = Inr None"
    using assms(3) by (rule fetch_absent)
  have "scrape_ebay_for_term web search_term d = scrape_pages web ?kws ([1..<p] @ p # [Suc p..<14]) d"
    unfolding scrape_ebay_for_term_def using pages_split [OF assms(1,2)] by simp
  also have "\<dots> = scrape_pages web ?kws ([1..<p] @ [Suc p..<14]) d"
    using f by (simp add: scrape_pages_append split: sum.splits)
  finally show ?thesis using f by simp
qed

text \<open>Page 3 of the example service has no results container.\<close>

theorem absent_container_page_example:
  "ryzen_web (search_url (py_split (py_lower ''Ryzen 5'')) 3) = Document None
   \<and> fetch_listings ryzen_web (py_split (py_lower ''Ryzen 5'')) 3 = Inr None
   \<and> scrape_ebay_for_term ryzen_web ''Ryzen 5'' [] =
       scrape_pages ryzen_web (py_split (py_lower ''Ryzen 5'')) ([1..<3] @ [Suc 3..<14]) []"
proof -
  have a: "ryzen_web (search_url (py_split (py_lower ''Ryzen 5'')) 3) = Document None"
    by code_simp
  from absent_container_page_is_skipped [of 3 ryzen_web "''Ryzen 5''" "[]"] a show ?thesis by simp
qed

lemma process_rows_append:
  "process_rows web (xs @ ys) s out =
     (case process_rows web xs s out of
        (Some e, s', out') \<Rightarrow> (Some e, s', out')
      | (None, s', out') \<Rightarrow> process_rows web ys s' out')"
  by (induction xs arbitrary: s out)
     (auto simp: Let_def split: list.splits sum.splits option.splits prod.splits)

text \<open>
  An exception of the transport on a page ends the run of the term at that page,
  when the pages before it are processed, and it ends the batch, when the rows
  before the term are processed: the run raises it and writes no table.
\<close>

lemma transport_exception_ends_run:
  assumes "1 \<le> p" and "p \<le> 13"
      and "web (search_url (py_split (py_lower search_term)) p) = Raises e"
      and "scrape_pages web (py_split (py_lower search_term)) [1..<p] [] = Inr d"
      and "py_strip first = search_term" and "search_term \<noteq> []"
      and "process_rows web earlier [] [] = (None, summary_data, out)"
      and "files input_file = Some (earlier @ (first # cols) # later)"
  shows "scrape_ebay_for_term web search_term [] = Inl e
         \<and> raised (main web files) = Some e \<and> written (main web files) = []"
proof -
  let ?kws = "py_split (py_lower search_term)"
  have "scrape_ebay_for_term web search_term [] = scrape_pages web ?kws ([1..<p] @ p # [Suc p..<14]) []"
    unfolding scrape_ebay_for_term_def using pages_split [OF assms(1,2)] by simp
  also have "\<dots> = Inl e"
    using assms(3) assms(4) by (simp add: scrape_pages_append fetch_listings_def)
  finally have t: "scrape_ebay_for_term web search_term [] = Inl e" .
  have "process_rows web ((first # cols) # later) summary_data out
          = (Some e, summary_data, out @ [''Processing: '' @ search_term])"
    using t assms(5,6) by (simp add: Let_def)
  then have "process_rows web (earlier @ (first # cols) # later) [] []
          = (Some e, summary_data, out @ [''Processing: '' @ search_term])"
    using assms(7) by (simp add: process_rows_append)
  with assms(8) t show ?thesis
    by (simp add: main_def)
qed

text \<open>
  Claim C1, as amended. A page whose response arrives without the results
  container, as a malformed or blocked response does, contributes nothing, and the
  loop goes on with the remaining pages. An exception that the transport raises
  on a page of a term is not recovered: it ends the run of the term at that page
  and the batch, and no table is written.
\<close>

theorem fetch_failure_handling:
  "(web (search_url kws q) = Document None \<longrightarrow>
      scrape_pages web kws (q # pages) d0 = scrape_pages web kws pages d0)
   \<and> (1 \<le> p \<and> p \<le> 13
       \<and> web (search_url (py_split (py_lower search_term)) p) = Raises e
       \<and> scrape_pages web (py_split (py_lower search_term)) [1..<p] [] = Inr d
       \<and> py_strip first = search_term \<and> search_term \<noteq> []
       \<and> process_rows web earlier [] [] = (None, summary_data, out)
       \<and> files input_file = Some (earlier @ (first # cols) # later) \<longrightarrow>
         scrape_ebay_for_term web search_term [] = Inl e
         \<and> raised (main web files) = Some e \<and> written (main web files) = [])"
proof (intro conjI impI)
  assume "web (search_url kws q) = Document None"
  then show "scrape_pages web kws (q # pages) d0 = scrape_pages web kws pages d0"
    by (simp add: fetch_listings_def)
next
  assume a: "1 \<le> p \<and> p \<le> 13
       \<and> web (search_url (py_split (py_lower search_term)) p) = Raises e
       \<and> scrape_pages web (py_split (py_lower search_term)) [1..<p] [] = Inr d
       \<and> py_strip first = search_term \<and> search_term \<noteq> []
       \<and> process_rows web earlier [] [] = (None, summary_data, out)
       \<and> files input_file = Some (earlier @ (first # cols) # later)"
  then have r: "scrape_ebay_for_term web search_term [] = Inl e
         \<and> raised (main web files) = Some e \<and> written (main web files) = []"
    using transport_exception_ends_run [of p web search_term e d first earlier summary_data out files cols later]
    by blast
  from r show "scrape_ebay_for_term web search_term [] = Inl e" by simp
  from r show "raised (main web files) = Some e" by simp
  from r show "written (main web files) = []" by simp
qed

text \<open>
  On the service whose transport fails on page 2 of the search for \<^verbatim>\<open>ryzen 5\<close>,
  page 3 has no results container and is passed over; page 1 is processed and
  the exception of page 2 ends the term and the batch.
\<close>

theorem fetch_failure_example:
  "failing_web (search_url (py_split (py_lower ''Ryzen 5'')) 3) = Document None
   \<and> scrape_pages failing_web (py_split (py_lower ''Ryzen 5'')) (3 # [4..<14]) []
       = scrape_pages failing_web (py_split (py_lower ''Ryzen 5'')) [4..<14] []
   \<and> scrape_pages failing_web (py_split (py_lower ''Ryzen 5'')) [1..<2] [] = Inr [(''Jan 5, 2024'', [Finite 150, Finite 200])]
   \<and> failing_web (search_url (py_split (py_lower ''Ryzen 5'')) 2) = Raises RequestException
   \<and> py_strip ''Ryzen 5'' = ''Ryzen 5''
   \<and> scrape_ebay_for_term failing_web ''Ryzen 5'' [] = Inl RequestException
   \<and> raised (main failing_web [input_file \<mapsto> [[''Ryzen 5'']]]) = Some RequestException
   \<and> written (main failing_web [input_file \<mapsto> [[''Ryzen 5'']]]) = []"
proof -
  have z: "failing_web (search_url (py_split (py_lower ''Ryzen 5'')) 3) = Document None"
    by code_simp
  have a: "scrape_pages failing_web (py_split (py_lower ''Ryzen 5'')) [1..<2] [] = Inr [(''Jan 5, 2024'', [Finite 150, Finite 200])]"
    by code_simp
  have b: "failing_web (search_url (py_split (py_lower ''Ryzen 5'')) 2) = Raises RequestException"
    by code_simp
  have c: "py_strip ''Ryzen 5'' = ''Ryzen 5''"
    by code_simp
  have d: "process_rows failing_web [] [] [] = (None, [], [])"
    by simp
  have e: "[input_file \<mapsto> [[''Ryzen 5'']]] input_file = Some ([] @ (''Ryzen 5'' # []) # [])"
    by simp
  have n: "(1::nat) \<le> 2 \<and> (2::nat) \<le> 13 \<and> ''Ryzen 5'' \<noteq> []"
    by simp
  from fetch_failure_handling
         [where web = failing_web and kws = "py_split (py_lower ''Ryzen 5'')" and q = 3
            and pages = "[4..<14]" and ?d0.0 = "[]"
            and p = 2 and search_term = "''Ryzen 5''" and first = "''Ryzen 5''"
            and e = RequestException and d = "[(''Jan 5, 2024'', [Finite 150, Finite 200])]"
            and earlier = "[]" and summary_data = "[]" and out = "[]"
            and cols = "[]" and later = "[]"
            and files = "[input_file \<mapsto> [[''Ryzen 5'']]]"]
    z a b c d e n
  show ?thesis by blast
qed

text \<open>
  The claim as stated fails: with the term list \<^verbatim>\<open>Ryzen 5\<close>, \<^verbatim>\<open>i7 9700K\<close> and the
  transport failing on page 2 of the first term, the run ends with the exception
  while processing the first term, the second term is never processed, and no
  table is written.
\<close>

theorem fetch_failure_terminates_batch:
  "main failing_web [input_file \<mapsto> [[''Ryzen 5''], [''i7 9700K'']]] =
     \<lparr>raised = Some RequestException, stdout = [''Processing: Ryzen 5''], written = []\<rparr>"
  by code_simp

subsection \<open>Listings without a required field\<close>

text \<open>
  A listing node without title element makes \<^verbatim>\<open>parse_listing\<close> raise
  \<^verbatim>\<open>AttributeError\<close>, which the handler of the loop over the listings does not
  catch: the listings after it on the page are not processed.
\<close>

lemma missing_title_ends_page:
  "title_text item = None \<Longrightarrow> scrape_listings kws (item # listings) d = Inl AttributeError"
  by (simp add: try_listing_def parse_listing_def)

text \<open>A listing whose processing raises \<^verbatim>\<open>ValueError\<close>, as an unparsable price does, is passed over.\<close>

lemma unparsable_listing_is_skipped:
  "try_listing kws item d = Inl ValueError \<Longrightarrow>
   scrape_listings kws (item # listings) d = scrape_listings kws listings d"
  by simp

text \<open>\<^verbatim>\<open>parse_listing\<close> never raises the exception that the handler catches.\<close>

lemma parse_listing_no_ValueError: "parse_listing item \<noteq> Inl ValueError"
  by (simp add: parse_listing_def split: option.splits)

text \<open>
  Claim C2 fails on the code. Page 1 of the service has a listing without title
  element followed by a complete listing of 150.00. The claim has the first
  listing skipped and the second one recorded; the run of the term ends with
  \<^verbatim>\<open>AttributeError\<close> instead, and so does the batch, which writes no table.
\<close>

theorem missing_title_aborts_run:
  "scrape_ebay_for_term untitled_web ''Ryzen 5'' [] = Inl AttributeError
   \<and> main untitled_web [input_file \<mapsto> [[''Ryzen 5'']]] =
       \<lparr>raised = Some AttributeError, stdout = [''Processing: Ryzen 5''], written = []\<rparr>"
  by code_simp

subsection \<open>The input file\<close>

text \<open>
  Claim C8, as amended. When the input file does not exist, the run prints the
  error message that names the file, returns, and writes no file.
\<close>

theorem missing_input_file_reported:
  assumes "files input_file = None"
  shows "main web files =
           \<lparr>raised = None,
            stdout = [''Error: 'search_terms.csv' not found. Make sure the file exists.''],
            written = []\<rparr>"
  using assms by (simp add: main_def input_file_def)

theorem missing_input_file_example:
  "Map.empty input_file = (None :: string list list option)
   \<and> main empty_web Map.empty =
       \<lparr>raised = None,
        stdout = [''Error: 'search_terms.csv' not found. Make sure the file exists.''],
        written = []\<rparr>"
  using missing_input_file_reported [of Map.empty empty_web] by simp

text \<open>
  The absence of the input file is not the only way in which the run ends without
  a table: with the input file present, the term \<^verbatim>\<open>Ryzen 5\<close> processed, and the
  transport failing on page 1 of the term \<^verbatim>\<open>i7 9700K\<close>, the run ends with the
  exception and writes no table.
\<close>

theorem run_aborts_with_input_present:
  "[input_file \<mapsto> [[''Ryzen 5''], [''i7 9700K'']]] input_file \<noteq> None
   \<and> main unreachable_web [input_file \<mapsto> [[''Ryzen 5''], [''i7 9700K'']]] =
       \<lparr>raised = Some RequestException,
        stdout = [''Processing: Ryzen 5'', ''Processing: i7 9700K''],
        written = []\<rparr>"
  by code_simp

end
